theory Spec2Isabelle
  imports Complex_Main "HOL-Library.Word"
begin

section \<open>The sampler of juce\_Sampler.cpp\<close>

text \<open>
  A shallow embedding of \<^verbatim>\<open>SamplerSound\<close> and \<^verbatim>\<open>SamplerVoice\<close>
  (modules/juce\_audio\_formats/sampler/juce\_Sampler.cpp).

  Numbers. The C++ \<^verbatim>\<open>float\<close> and \<^verbatim>\<open>double\<close> values (samples, gains,
  the read position, the pitch ratio) are modelled as \<^typ>\<open>real\<close>: the arithmetic is
  exact, rounding, infinities and NaN are not represented. The C++ \<^verbatim>\<open>int\<close>
  values (sample counts, indices, note numbers) are modelled as \<^typ>\<open>int\<close>; the places
  where a conversion can leave the 32-bit range are written out and fail.

  Memory. An access outside a buffer, a null dereference and a conversion whose
  result is not representable are undefined behaviour in C++. The model makes each of
  them a value of the type \<open>error\<close>, so every function that touches memory returns
  \<open>error + result\<close> and \<open>Inr\<close> means that the C++ is defined on that input.
\<close>

subsection \<open>Errors and buffers\<close>

datatype error =
    ReadOutOfRange
  | WriteOutOfRange
  | NullDereference
  | BadConversion
  | IntOverflow
  | NegativeSize

text \<open>
  An \<^verbatim>\<open>AudioBuffer<float>\<close> is a list of channels, each channel the list of its
  samples. \<^verbatim>\<open>getNumChannels()\<close> is the length of the outer list.
\<close>

type_synonym AudioBuffer = "real list list"

text \<open>
  Modelled from the spec: the constructor \<^verbatim>\<open>AudioBuffer (numChannels, numSamples)\<close>
  (the class is not among the sources). The sampler clears or fills every buffer it
  allocates before reading it, so the fresh buffer is taken to hold zeros.
\<close>

definition AudioBuffer_new :: "nat \<Rightarrow> nat \<Rightarrow> AudioBuffer" where
  "AudioBuffer_new numChans numSamps = replicate numChans (replicate numSamps 0)"

text \<open>
  Modelled from the spec: \<^verbatim>\<open>AudioBuffer::clear()\<close>, which zeroes every sample of
  every channel.
\<close>

definition clear :: "AudioBuffer \<Rightarrow> AudioBuffer" where
  "clear buf = map (\<lambda>ch. map (\<lambda>_. 0) ch) buf"

text \<open>
  Modelled from the spec: \<^verbatim>\<open>AudioBuffer::clear (startSample, numSamples)\<close>, which zeroes
  the samples \<open>[startSample, startSample + numSamples)\<close> of every channel. A region that
  does not lie inside the buffer is a write out of range.
\<close>

definition clearRegion :: "AudioBuffer \<Rightarrow> int \<Rightarrow> int \<Rightarrow> error + AudioBuffer" where
  "clearRegion buf startSample numSamples =
     (if 0 \<le> startSample \<and> 0 \<le> numSamples
         \<and> list_all (\<lambda>ch. startSample + numSamples \<le> int (length ch)) buf
      then Inr (map (\<lambda>ch. map (\<lambda>i. if startSample \<le> int i \<and> int i < startSample + numSamples
                                      then 0 else ch ! i) [0..<length ch]) buf)
      else Inl WriteOutOfRange)"

text \<open>
  Modelled from the spec: \<^verbatim>\<open>AudioBuffer::copyFrom (destChannel, destStartSample, source,
  numSamples)\<close>, which overwrites \<open>numSamples\<close> samples of one channel, starting at
  \<open>destStartSample\<close>, with the first \<open>numSamples\<close> samples behind the pointer \<open>source\<close>.
  The source pointer is modelled by the list it points into.
\<close>

definition copyFrom :: "AudioBuffer \<Rightarrow> nat \<Rightarrow> int \<Rightarrow> real list \<Rightarrow> int \<Rightarrow> error + AudioBuffer" where
  "copyFrom buf destChannel destStartSample source numSamples =
     (if \<not> (destChannel < length buf \<and> 0 \<le> destStartSample \<and> 0 \<le> numSamples
             \<and> destStartSample + numSamples \<le> int (length (buf ! destChannel)))
      then Inl WriteOutOfRange
      else if int (length source) < numSamples then Inl ReadOutOfRange
      else Inr (buf[destChannel :=
             map (\<lambda>i. if destStartSample \<le> int i \<and> int i < destStartSample + numSamples
                       then source ! nat (int i - destStartSample)
                       else buf ! destChannel ! i)
                 [0..<length (buf ! destChannel)]]))"

text \<open>
  Modelled from the spec: \<^verbatim>\<open>AudioBuffer::applyGainRamp (channel, startSample, numSamples,
  startGain, endGain)\<close>, a linear gain ramp over \<open>[startSample, startSample + numSamples)\<close>
  of one channel: the first sample of the region is multiplied by \<open>startGain\<close> and the
  gain moves by \<open>(endGain - startGain) / numSamples\<close> from each sample to the next.
\<close>

definition applyGainRamp ::
  "AudioBuffer \<Rightarrow> nat \<Rightarrow> int \<Rightarrow> int \<Rightarrow> real \<Rightarrow> real \<Rightarrow> error + AudioBuffer" where
  "applyGainRamp buf channel startSample numSamples startGain endGain =
     (if \<not> (channel < length buf \<and> 0 \<le> startSample \<and> 0 \<le> numSamples
             \<and> startSample + numSamples \<le> int (length (buf ! channel)))
      then Inl WriteOutOfRange
      else Inr (buf[channel :=
             map (\<lambda>i. if startSample \<le> int i \<and> int i < startSample + numSamples
                       then buf ! channel ! i
                            * (startGain + real_of_int (int i - startSample)
                                           * ((endGain - startGain) / real_of_int numSamples))
                       else buf ! channel ! i)
                 [0..<length (buf ! channel)]]))"

text \<open>
  A read through a \<^verbatim>\<open>const float*\<close> at an \<^verbatim>\<open>int\<close> index, and the
  \<^verbatim>\<open>*p++ += x\<close> of the render loop at channel \<open>c\<close>, index \<open>i\<close>.
\<close>

definition readAt :: "real list \<Rightarrow> int \<Rightarrow> error + real" where
  "readAt xs i = (if 0 \<le> i \<and> i < int (length xs) then Inr (xs ! nat i) else Inl ReadOutOfRange)"

definition addAt :: "AudioBuffer \<Rightarrow> nat \<Rightarrow> int \<Rightarrow> real \<Rightarrow> error + AudioBuffer" where
  "addAt buf c i x =
     (if c < length buf \<and> 0 \<le> i \<and> i < int (length (buf ! c))
      then Inr (buf[c := (buf ! c)[nat i := buf ! c ! nat i + x]])
      else Inl WriteOutOfRange)"

text \<open>
  The conversions \<^verbatim>\<open>(int) x\<close> of a \<^verbatim>\<open>double\<close> (truncation towards zero,
  undefined when the result does not fit) and \<^verbatim>\<open>(int) n\<close> of an \<^verbatim>\<open>int64\<close>
  or an \<^verbatim>\<open>unsigned int\<close> (the low 32 bits, read as signed).
\<close>

definition truncToZero :: "real \<Rightarrow> int" where
  "truncToZero x = (if 0 \<le> x then \<lfloor>x\<rfloor> else \<lceil>x\<rceil>)"

definition int_of_double :: "real \<Rightarrow> error + int" where
  "int_of_double x =
     (if - (2 ^ 31) \<le> truncToZero x \<and> truncToZero x < 2 ^ 31 then Inr (truncToZero x)
      else Inl BadConversion)"

definition int_of_int64 :: "int \<Rightarrow> int" where
  "int_of_int64 n = sint (word_of_int n :: 32 word)"

subsection \<open>The collaborators: PCM source and envelope\<close>

text \<open>
  Modelled from the spec: the PCM source (\<^verbatim>\<open>AudioFormatReader\<close>, not among the
  sources), as far as the sampler uses it: the public fields \<open>sampleRate\<close>,
  \<open>lengthInSamples\<close> (an \<^verbatim>\<open>int64\<close>) and \<open>numChannels\<close>, and the frames
  it holds, one list per channel.
\<close>

record AudioFormatReader =
  sampleRate :: real
  lengthInSamples :: int
  numChannels :: nat
  frames :: "real list list"

text \<open>
  Modelled from the spec: \<^verbatim>\<open>read (dest, destOffset, numFrames, sourceOffset, needLeft,
  needRight)\<close> with both channels wanted. Frame \<open>destOffset + k\<close> of every channel of
  \<open>dest\<close> receives frame \<open>sourceOffset + k\<close> of the same channel of the source, for
  \<open>k < numFrames\<close>, and zero where the source has no such frame (``zero-fill beyond source
  end''). The region must lie inside \<open>dest\<close>.
\<close>

definition sourceFrame :: "AudioFormatReader \<Rightarrow> nat \<Rightarrow> int \<Rightarrow> real" where
  "sourceFrame source c k =
     (if c < length (frames source) \<and> 0 \<le> k \<and> k < lengthInSamples source
         \<and> k < int (length (frames source ! c))
      then frames source ! c ! nat k else 0)"

definition read ::
  "AudioFormatReader \<Rightarrow> AudioBuffer \<Rightarrow> int \<Rightarrow> int \<Rightarrow> int \<Rightarrow> error + AudioBuffer" where
  "read source dest destOffset numFrames sourceOffset =
     (if 0 \<le> destOffset \<and> 0 \<le> numFrames
         \<and> list_all (\<lambda>ch. destOffset + numFrames \<le> int (length ch)) dest
      then Inr (map (\<lambda>c. map (\<lambda>i. if destOffset \<le> int i \<and> int i < destOffset + numFrames
                                     then sourceFrame source c (sourceOffset + (int i - destOffset))
                                     else dest ! c ! i)
                               [0..<length (dest ! c)])
                    [0..<length dest])
      else Inl WriteOutOfRange)"

text \<open>
  The envelope generator \<^verbatim>\<open>juce::ADSR\<close> is not among the sources and the spec
  treats it as a black box. The voice is therefore parametrised by the envelope: its
  state is a type variable and its operations are the fields of \<open>ADSR_ops\<close>.
  \<open>ADSR_Parameters\<close> is the parameter block the sound stores; the sampler sets only
  \<open>attack\<close> and \<open>release\<close>.
\<close>

record ADSR_Parameters =
  attack :: real
  decay :: real
  sustain :: real
  release :: real

record 'a ADSR_ops =
  setSampleRate :: "real \<Rightarrow> 'a \<Rightarrow> 'a"
  setParameters :: "ADSR_Parameters \<Rightarrow> 'a \<Rightarrow> 'a"
  noteOn :: "'a \<Rightarrow> 'a"
  noteOff :: "'a \<Rightarrow> 'a"
  reset :: "'a \<Rightarrow> 'a"
  getNextSample :: "'a \<Rightarrow> real \<times> 'a"

subsection \<open>SamplerSound\<close>

text \<open>
  The fields of \<^verbatim>\<open>SamplerSound\<close>. \<open>data\<close> is the \<^verbatim>\<open>unique_ptr\<close> to the sample
  buffer, \<open>None\<close> while it is null. The field \<^verbatim>\<open>length\<close> is named \<open>lengthS\<close> here.
\<close>

record SamplerSound =
  name :: string
  sourceSampleRate :: real
  midiNotes :: "int set"
  midiRootNote :: int
  lengthS :: int
  data :: "AudioBuffer option"
  params :: ADSR_Parameters

text \<open>
  The constructor (lines 29--53). The member initialisers leave \<open>length = 0\<close>, a null
  \<open>data\<close> and the default parameter block \<open>defaultParams\<close>, which is an argument here
  since the header that holds the defaults is not among the sources.
  \<^verbatim>\<open>length + 4\<close> is an \<^verbatim>\<open>int\<close> addition and a negative frame count cannot be
  allocated; both fail in the model.
\<close>

definition SamplerSound_new ::
  "ADSR_Parameters \<Rightarrow> string \<Rightarrow> AudioFormatReader \<Rightarrow> int set \<Rightarrow> int \<Rightarrow> real \<Rightarrow> real \<Rightarrow> real
     \<Rightarrow> error + SamplerSound" where
  "SamplerSound_new defaultParams soundName source notes midiNoteForNormalPitch
       attackTimeSecs releaseTimeSecs maxSampleLengthSeconds =
     (let s0 = \<lparr> name = soundName, sourceSampleRate = sampleRate source, midiNotes = notes,
                 midiRootNote = midiNoteForNormalPitch, lengthS = 0, data = None,
                 params = defaultParams \<rparr>
      in if sourceSampleRate s0 > 0 \<and> lengthInSamples source > 0
         then (case int_of_double (maxSampleLengthSeconds * sourceSampleRate s0) of
                 Inl e \<Rightarrow> Inl e
               | Inr cap \<Rightarrow>
                   (let len = min (int_of_int64 (lengthInSamples source)) cap
                    in if len + 4 \<ge> 2 ^ 31 then Inl IntOverflow
                       else if len + 4 < 0 then Inl NegativeSize
                       else (case read source
                                    (AudioBuffer_new (nat (min 2 (int_of_int64 (int (numChannels source)))))
                                                     (nat (len + 4)))
                                    0 (len + 4) 0 of
                               Inl e \<Rightarrow> Inl e
                             | Inr d \<Rightarrow>
                                 Inr (s0\<lparr> lengthS := len, data := Some d,
                                          params := (params s0)\<lparr> attack := attackTimeSecs,
                                                                   release := releaseTimeSecs \<rparr> \<rparr>))))
         else Inr s0)"

definition appliesToNote :: "SamplerSound \<Rightarrow> int \<Rightarrow> bool" where
  "appliesToNote s midiNoteNumber = (midiNoteNumber \<in> midiNotes s)"

definition appliesToChannel :: "SamplerSound \<Rightarrow> int \<Rightarrow> bool" where
  "appliesToChannel s midiChannel = True"

subsection \<open>SamplerVoice\<close>

text \<open>
  A \<^verbatim>\<open>SynthesiserSound*\<close> handed to the voice is either a \<^verbatim>\<open>SamplerSound\<close> or
  something else (another kind of sound, or the null pointer); \<^verbatim>\<open>dynamic_cast\<close>
  tells them apart.
\<close>

datatype SynthesiserSound = IsSamplerSound SamplerSound | OtherSound

text \<open>
  The state of a voice: the fields of \<^verbatim>\<open>SamplerVoice\<close> and, of its base class
  \<^verbatim>\<open>SynthesiserVoice\<close>, what the sampler reads or writes: the host sample rate
  behind \<^verbatim>\<open>getSampleRate()\<close>, the note and the sound that
  \<^verbatim>\<open>clearCurrentNote()\<close> clears and \<^verbatim>\<open>getCurrentlyPlayingSound()\<close> returns.
  The render loop casts the playing sound to \<^verbatim>\<open>SamplerSound*\<close> unchecked, so the
  field holds a \<open>SamplerSound\<close>.
\<close>

record 'a SamplerVoice =
  currentSampleRate :: real
  currentlyPlayingNote :: int
  currentlyPlayingSound :: "SamplerSound option"
  bufferSize :: int
  fadeBuffer :: AudioBuffer
  pitchRatio :: real
  sourceSamplePosition :: real
  lgain :: real
  rgain :: real
  adsr :: 'a
  startingGain :: real
  isFading :: bool
  renderingFade :: bool

text \<open>
  Modelled from the spec: \<^verbatim>\<open>SynthesiserVoice::clearCurrentNote()\<close> detaches the voice
  from the note and the sound it plays.
\<close>

definition clearCurrentNote :: "'a SamplerVoice \<Rightarrow> 'a SamplerVoice" where
  "clearCurrentNote v = v\<lparr> currentlyPlayingNote := - 1, currentlyPlayingSound := None \<rparr>"

text \<open>
  The constructor (lines 70--73) stores the block size and allocates the fade buffer
  with 2 channels of \<open>bufferSize\<close> frames. The member initialisers of the other fields
  are in the header, which is not among the sources; \<open>initial\<close> stands for them.
\<close>

definition SamplerVoice_new :: "'a SamplerVoice \<Rightarrow> int \<Rightarrow> error + 'a SamplerVoice" where
  "SamplerVoice_new initial iBufferSize =
     (if iBufferSize < 0 then Inl NegativeSize
      else Inr (initial\<lparr> bufferSize := iBufferSize,
                         fadeBuffer := AudioBuffer_new 2 (nat iBufferSize) \<rparr>))"

definition canPlaySound :: "SynthesiserSound \<Rightarrow> bool" where
  "canPlaySound sound = (case sound of IsSamplerSound _ \<Rightarrow> True | OtherSound \<Rightarrow> False)"

text \<open>
  \<^verbatim>\<open>startNote\<close> (lines 85--110). \<^verbatim>\<open>std::pow (2.0, x)\<close> is \<open>2 powr x\<close>. The
  \<^verbatim>\<open>jassertfalse\<close> of the other branch only reports in a debug build; the state is
  not touched.
\<close>

definition startNote ::
  "'a ADSR_ops \<Rightarrow> int \<Rightarrow> real \<Rightarrow> SynthesiserSound \<Rightarrow> int \<Rightarrow> 'a SamplerVoice \<Rightarrow> 'a SamplerVoice" where
  "startNote ops midiNoteNumber velocity s currentPitchWheelPosition v =
     (case s of
        IsSamplerSound sound \<Rightarrow>
          v\<lparr> pitchRatio := 2 powr (real_of_int (midiNoteNumber - midiRootNote sound) / 12)
                             * sourceSampleRate sound / currentSampleRate v,
             sourceSamplePosition := 0,
             lgain := velocity,
             rgain := velocity,
             adsr := noteOn ops (setParameters ops (params sound)
                                   (setSampleRate ops (sourceSampleRate sound) (adsr v))) \<rparr>
      | OtherSound \<Rightarrow> v)"

text \<open>
  The interpolation of lines 204--206, \<^verbatim>\<open>in[pos] * invAlpha + in[pos + 1] * alpha\<close>,
  with both reads checked against the channel.
\<close>

definition interpolate :: "real list \<Rightarrow> int \<Rightarrow> real \<Rightarrow> error + real" where
  "interpolate inp pos alpha =
     (case readAt inp pos of
        Inl e \<Rightarrow> Inl e
      | Inr a \<Rightarrow>
          (case readAt inp (pos + 1) of
             Inl e \<Rightarrow> Inl e
           | Inr b \<Rightarrow> Inr (a * (1 - alpha) + b * alpha)))"

text \<open>
  One pass through the body of the \<^verbatim>\<open>while\<close> loop, lines 199--228, up to and
  including \<^verbatim>\<open>sourceSamplePosition += pitchRatio\<close>. \<open>inL\<close> and \<open>inR\<close> are the read
  pointers into the sound (\<open>inR = None\<close> for the null pointer), \<open>i\<close> is the index
  that \<open>outL\<close> and \<open>outR\<close> have reached, \<open>stereo\<close> says that \<open>outR\<close> is not null and
  \<open>captureStartingGain\<close> is the local flag of line 195.
\<close>

definition renderFrame ::
  "'a ADSR_ops \<Rightarrow> real list \<Rightarrow> real list option \<Rightarrow> bool \<Rightarrow> bool \<Rightarrow> 'a SamplerVoice \<Rightarrow> AudioBuffer \<Rightarrow> int
     \<Rightarrow> error + ('a SamplerVoice \<times> AudioBuffer)" where
  "renderFrame ops inL inR stereo captureStartingGain v out i =
     (case int_of_double (sourceSamplePosition v) of
        Inl e \<Rightarrow> Inl e
      | Inr pos \<Rightarrow>
          (let alpha = sourceSamplePosition v - real_of_int pos in
           (case interpolate inL pos alpha of
             Inl e \<Rightarrow> Inl e
           | Inr l \<Rightarrow>
               (case (case inR of Some ch \<Rightarrow> interpolate ch pos alpha | None \<Rightarrow> Inr l) of
                  Inl e \<Rightarrow> Inl e
                | Inr r \<Rightarrow>
                    (let envelopeValue = fst (getNextSample ops (adsr v));
                         v1 = v\<lparr> adsr := snd (getNextSample ops (adsr v)),
                                 startingGain := (if captureStartingGain then envelopeValue
                                                  else startingGain v) \<rparr>;
                         l1 = l * (lgain v * envelopeValue);
                         r1 = r * (rgain v * envelopeValue);
                         v2 = v1\<lparr> sourceSamplePosition := sourceSamplePosition v + pitchRatio v \<rparr>
                     in if stereo
                        then (case addAt out 0 i l1 of
                                Inl e \<Rightarrow> Inl e
                              | Inr out1 \<Rightarrow>
                                  (case addAt out1 1 i r1 of
                                     Inl e \<Rightarrow> Inl e
                                   | Inr out2 \<Rightarrow> Inr (v2, out2)))
                        else (case addAt out 0 i ((l1 + r1) * (1 / 2)) of
                                Inl e \<Rightarrow> Inl e
                              | Inr out1 \<Rightarrow> Inr (v2, out1)))))))"

text \<open>
  The fade emission of lines 174--181: for every channel of the output that the fade
  buffer also has, \<^verbatim>\<open>copyFrom (channel, 0, fadeBuffer->getReadPointer (channel),
  numSamples)\<close>. The list argument holds the channels still to visit.
\<close>

fun emitFade :: "AudioBuffer \<Rightarrow> int \<Rightarrow> nat list \<Rightarrow> AudioBuffer \<Rightarrow> error + AudioBuffer" where
  "emitFade fade numSamples [] out = Inr out"
| "emitFade fade numSamples (channel # rest) out =
     (if length fade > channel
      then (case copyFrom out channel 0 (fade ! channel) numSamples of
              Inl e \<Rightarrow> Inl e
            | Inr out1 \<Rightarrow> emitFade fade numSamples rest out1)
      else emitFade fade numSamples rest out)"

text \<open>
  The second half of the hard stop, lines 139--159, entered with the rendered block
  in the fade buffer: the end of the ramp, the ramp on channel 0 and on channel 1 if
  there is one, the cleared tail, and the three state changes.
\<close>

definition fadeEndSample :: "'a SamplerVoice \<Rightarrow> error + int" where
  "fadeEndSample v =
     (if pitchRatio v < 1 then int_of_double (real_of_int (bufferSize v) * pitchRatio v)
      else Inr (bufferSize v))"

definition finishHardStop :: "'a ADSR_ops \<Rightarrow> 'a SamplerVoice \<Rightarrow> error + 'a SamplerVoice" where
  "finishHardStop ops v =
     (case fadeEndSample v of
        Inl e \<Rightarrow> Inl e
      | Inr endSample \<Rightarrow>
          (case applyGainRamp (fadeBuffer v) 0 0 endSample (startingGain v) 0 of
             Inl e \<Rightarrow> Inl e
           | Inr fb1 \<Rightarrow>
               (case (if length fb1 > 1 then applyGainRamp fb1 1 0 endSample (startingGain v) 0
                      else Inr fb1) of
                  Inl e \<Rightarrow> Inl e
                | Inr fb2 \<Rightarrow>
                    (case clearRegion fb2 endSample (bufferSize v - endSample) of
                       Inl e \<Rightarrow> Inl e
                     | Inr fb3 \<Rightarrow>
                         Inr ((clearCurrentNote (v\<lparr> fadeBuffer := fb3, isFading := True \<rparr>))
                                \<lparr> adsr := reset ops (adsr v) \<rparr>)))))"

lemma renderFrame_renderingFade:
  "renderFrame ops inL inR stereo cap v out i = Inr (v1, out1) \<Longrightarrow> renderingFade v1 = renderingFade v"
  by (auto simp: renderFrame_def Let_def split: sum.splits if_splits)

text \<open>
  \<^verbatim>\<open>stopNote\<close> (lines 112--161) and \<^verbatim>\<open>renderNextBlock\<close> (lines 167--241) call each
  other: the hard stop renders one block into the fade buffer, and the render loop
  stops the note when the read position passes the end of the sound. \<open>renderLoop\<close> is
  the \<^verbatim>\<open>while (--numSamples >= 0)\<close> loop of lines 197--235; its last argument counts
  the passes that are left.

  \<^verbatim>\<open>getReadPointer (0)\<close> of a sound without channels and
  \<^verbatim>\<open>getWritePointer (0, startSample)\<close> of an output without channels have no
  valid pointer to return; the model fails at these calls.

  The voice owns its fade buffer, so a caller cannot pass it as \<open>outputBuffer\<close>; only
  the nested call of line 132 does. There the model passes the cleared buffer as the
  output and stores the returned output back into the voice. While that call runs,
  \<open>renderingFade\<close> is set, so the \<^verbatim>\<open>stopNote\<close> of line 232 returns at once and nothing
  else writes the fade buffer; the fade branch reads it before any write of the call.
\<close>

function stopNote :: "'a ADSR_ops \<Rightarrow> real \<Rightarrow> bool \<Rightarrow> 'a SamplerVoice \<Rightarrow> error + 'a SamplerVoice"
  and renderNextBlock ::
    "'a ADSR_ops \<Rightarrow> 'a SamplerVoice \<Rightarrow> AudioBuffer \<Rightarrow> int \<Rightarrow> int \<Rightarrow> error + ('a SamplerVoice \<times> AudioBuffer)"
  and renderLoop ::
    "'a ADSR_ops \<Rightarrow> SamplerSound \<Rightarrow> real list \<Rightarrow> real list option \<Rightarrow> bool \<Rightarrow> bool
       \<Rightarrow> 'a SamplerVoice \<Rightarrow> AudioBuffer \<Rightarrow> int \<Rightarrow> nat \<Rightarrow> error + ('a SamplerVoice \<times> AudioBuffer)"
where
  "stopNote ops velocity allowTailOff v =
     (if allowTailOff then Inr (v\<lparr> adsr := noteOff ops (adsr v) \<rparr>)
      else if renderingFade v then Inr v
      else (case renderNextBlock ops (v\<lparr> fadeBuffer := clear (fadeBuffer v), renderingFade := True \<rparr>)
                   (clear (fadeBuffer v)) 0 (bufferSize v) of
              Inl e \<Rightarrow> Inl e
            | Inr (v1, fb) \<Rightarrow> finishHardStop ops (v1\<lparr> fadeBuffer := fb, renderingFade := False \<rparr>)))"
| "renderNextBlock ops v outputBuffer startSample numSamples =
     (if isFading v
      then (case emitFade (fadeBuffer v) numSamples [0..<length outputBuffer] outputBuffer of
              Inl e \<Rightarrow> Inl e
            | Inr out1 \<Rightarrow> Inr (v\<lparr> isFading := False \<rparr>, out1))
      else (case currentlyPlayingSound v of
              Some playingSound \<Rightarrow>
                (case data playingSound of
                   None \<Rightarrow> Inl NullDereference
                 | Some d \<Rightarrow>
                     if length d = 0 then Inl ReadOutOfRange
                     else if length outputBuffer = 0 then Inl WriteOutOfRange
                     else renderLoop ops playingSound (d ! 0)
                            (if length d > 1 then Some (d ! 1) else None)
                            (length outputBuffer > 1) True v outputBuffer startSample (nat numSamples))
            | None \<Rightarrow> Inr (v, outputBuffer)))"
| "renderLoop ops playingSound inL inR stereo captureStartingGain v out i 0 = Inr (v, out)"
| "renderLoop ops playingSound inL inR stereo captureStartingGain v out i (Suc n) =
     (case renderFrame ops inL inR stereo captureStartingGain v out i of
        Inl e \<Rightarrow> Inl e
      | Inr (v1, out1) \<Rightarrow>
          if sourceSamplePosition v1 > real_of_int (lengthS playingSound)
          then (case stopNote ops 0 False v1 of
                  Inl e \<Rightarrow> Inl e
                | Inr v2 \<Rightarrow> Inr (v2, out1))
          else renderLoop ops playingSound inL inR stereo False v1 out1 (i + 1) n)"
  by pat_completeness auto
termination
proof (relation "measures [
    (\<lambda>x. case x of
            Inl (ops, vel, allow, v) \<Rightarrow> (if renderingFade v then 0 else 1)
          | Inr (Inl (ops, v, out, s, n)) \<Rightarrow> (if renderingFade v then 0 else 1)
          | Inr (Inr (ops, ps, inL, inR, st, cap, v, out, i, n)) \<Rightarrow> (if renderingFade v then 0 else 1)),
    (\<lambda>x. case x of
            Inl _ \<Rightarrow> 0
          | Inr (Inl _) \<Rightarrow> 2
          | Inr (Inr _) \<Rightarrow> Suc 0),
    (\<lambda>x. case x of
            Inl _ \<Rightarrow> 0
          | Inr (Inl _) \<Rightarrow> 0
          | Inr (Inr (ops, ps, inL, inR, st, cap, v, out, i, n)) \<Rightarrow> n)]", goal_cases)
  case 1
  show ?case by simp
next
  case 2
  then show ?case by simp
next
  case 3
  then show ?case by simp
next
  case (4 ops playingSound inL inR stereo cap v out i n x v1 out1)
  then have "renderingFade v1 = renderingFade v"
    using renderFrame_renderingFade [of ops inL inR stereo cap v out i v1 out1] by simp
  then show ?case by simp
next
  case (5 ops playingSound inL inR stereo cap v out i n x v1 out1)
  then have "renderingFade v1 = renderingFade v"
    using renderFrame_renderingFade [of ops inL inR stereo cap v out i v1 out1] by simp
  then show ?case by simp
qed

declare stopNote.simps [simp del] renderNextBlock.simps [simp del]

subsection \<open>What the render loop is compared with\<close>

text \<open>
  The spec's description of one output frame, written down independently of the loop.
  \<open>floorInterpolate inp p\<close> is the linear interpolation at the position \<open>p\<close>: with
  \<open>pos = \<lfloor>p\<rfloor>\<close> and \<open>alpha = p - pos\<close> it is \<open>inp[pos] * (1 - alpha) + inp[pos + 1] *
  alpha\<close>. \<open>envelopeAt ops a j\<close> is the sample the envelope returns at the call number
  \<open>j\<close> (from 0) of \<^verbatim>\<open>getNextSample\<close> when it starts in the state \<open>a\<close>.
  \<open>frameLeft\<close> and \<open>frameRight\<close> are the scaled left and right values of frame \<open>j\<close> of
  a block that starts in the voice state \<open>v\<close>: the position is \<open>sourceSamplePosition v +
  j * pitchRatio v\<close>, the right value falls back to the left channel of the sound when
  it has no right one. \<open>frameMix\<close> is what channel 0 of the output receives: the left
  value for a stereo output, the mean of both for a mono output.
\<close>

definition floorInterpolate :: "real list \<Rightarrow> real \<Rightarrow> real" where
  "floorInterpolate inp p =
     inp ! nat \<lfloor>p\<rfloor> * (1 - (p - real_of_int \<lfloor>p\<rfloor>)) + inp ! nat (\<lfloor>p\<rfloor> + 1) * (p - real_of_int \<lfloor>p\<rfloor>)"

definition envelopeState :: "'a ADSR_ops \<Rightarrow> 'a \<Rightarrow> nat \<Rightarrow> 'a" where
  "envelopeState ops a j = ((\<lambda>s. snd (getNextSample ops s)) ^^ j) a"

definition envelopeAt :: "'a ADSR_ops \<Rightarrow> 'a \<Rightarrow> nat \<Rightarrow> real" where
  "envelopeAt ops a j = fst (getNextSample ops (envelopeState ops a j))"

definition frameLeft :: "'a ADSR_ops \<Rightarrow> real list \<Rightarrow> 'a SamplerVoice \<Rightarrow> nat \<Rightarrow> real" where
  "frameLeft ops inL v j =
     floorInterpolate inL (sourceSamplePosition v + real j * pitchRatio v)
       * (lgain v * envelopeAt ops (adsr v) j)"

definition frameRight :: "'a ADSR_ops \<Rightarrow> real list \<Rightarrow> real list option \<Rightarrow> 'a SamplerVoice \<Rightarrow> nat \<Rightarrow> real" where
  "frameRight ops inL inR v j =
     (case inR of
        Some ch \<Rightarrow> floorInterpolate ch (sourceSamplePosition v + real j * pitchRatio v)
      | None \<Rightarrow> floorInterpolate inL (sourceSamplePosition v + real j * pitchRatio v))
       * (rgain v * envelopeAt ops (adsr v) j)"

definition frameMix :: "'a ADSR_ops \<Rightarrow> real list \<Rightarrow> real list option \<Rightarrow> bool \<Rightarrow> 'a SamplerVoice \<Rightarrow> nat \<Rightarrow> real" where
  "frameMix ops inL inR stereo v j =
     (if stereo then frameLeft ops inL v j
      else (frameLeft ops inL v j + frameRight ops inL inR v j) / 2)"

text \<open>
  The body of the render loop run \<open>m\<close> times with no test of the read position in
  between: what the loop has done to the voice and to the output when it stops during
  its pass number \<open>m\<close>.
\<close>

fun renderFrames ::
  "'a ADSR_ops \<Rightarrow> real list \<Rightarrow> real list option \<Rightarrow> bool \<Rightarrow> bool \<Rightarrow> 'a SamplerVoice \<Rightarrow> AudioBuffer \<Rightarrow> int
     \<Rightarrow> nat \<Rightarrow> error + ('a SamplerVoice \<times> AudioBuffer)" where
  "renderFrames ops inL inR stereo captureStartingGain v out i 0 = Inr (v, out)"
| "renderFrames ops inL inR stereo captureStartingGain v out i (Suc m) =
     (case renderFrame ops inL inR stereo captureStartingGain v out i of
        Inl e \<Rightarrow> Inl e
      | Inr (v1, out1) \<Rightarrow> renderFrames ops inL inR stereo False v1 out1 (i + 1) m)"

text \<open>
  The spec's description of the fade block after a hard stop: sample \<open>k\<close> of channel
  \<open>c\<close> of the rendered block under a linear ramp from \<open>gain\<close> to 0 over
  \<open>[0, endSample)\<close> on the channels 0 and 1, and zero on \<open>[endSample, bufSize)\<close>.
\<close>

definition fadedSample :: "AudioBuffer \<Rightarrow> int \<Rightarrow> int \<Rightarrow> real \<Rightarrow> nat \<Rightarrow> nat \<Rightarrow> real" where
  "fadedSample block bufSize endSample gain c k =
     (if endSample \<le> int k \<and> int k < bufSize then 0
      else if c < 2 \<and> int k < endSample
           then block ! c ! k * (gain + real k * ((0 - gain) / real_of_int endSample))
           else block ! c ! k)"

subsection \<open>Example objects\<close>

text \<open>
  A concrete envelope for evaluating the voice on examples: a gate with no attack and
  no release time. Its state is the current level; note-on opens it, note-off and reset
  close it.
\<close>

definition gateEnvelope :: "real ADSR_ops" where
  "gateEnvelope =
     \<lparr> setSampleRate = (\<lambda>rate a. a), setParameters = (\<lambda>p a. a),
       noteOn = (\<lambda>a. 1), noteOff = (\<lambda>a. 0), reset = (\<lambda>a. 0),
       getNextSample = (\<lambda>a. (a, a)) \<rparr>"

definition gateParams :: ADSR_Parameters where
  "gateParams = \<lparr> attack = 0, decay = 0, sustain = 1, release = 0 \<rparr>"

text \<open>
  A mono source of ten frames that all hold 1, at a sample rate of 1.
\<close>

definition dcSource :: AudioFormatReader where
  "dcSource = \<lparr> sampleRate = 1, lengthInSamples = 10, numChannels = 1,
                 frames = [[1, 1, 1, 1, 1, 1, 1, 1, 1, 1]] \<rparr>"

text \<open>
  A mono sound of 8 frames (and the 4 frames of padding) with root note 60, and an
  idle voice with a block size of 4 frames at the sample rate of the sound.
\<close>

definition rampSound :: SamplerSound where
  "rampSound =
     \<lparr> name = ''ramp'', sourceSampleRate = 48000, midiNotes = {48, 60, 72, 84}, midiRootNote = 60,
       lengthS = 8, data = Some [[1, 2, 3, 4, 5, 6, 7, 8, 0, 0, 0, 0]], params = gateParams \<rparr>"

definition idleVoice :: "real SamplerVoice" where
  "idleVoice =
     \<lparr> currentSampleRate = 48000, currentlyPlayingNote = - 1, currentlyPlayingSound = None,
       bufferSize = 4, fadeBuffer = [[0, 0, 0, 0], [0, 0, 0, 0]], pitchRatio = 0,
       sourceSamplePosition = 0, lgain = 0, rgain = 0, adsr = 0, startingGain = 0,
       isFading = False, renderingFade = False \<rparr>"

text \<open>
  Modelled from the spec: the host synthesiser owns the reference to the sound a voice
  plays (its code is not among the sources). To start a note on a voice it records the
  note and the sound in the voice and then calls \<^verbatim>\<open>startNote\<close>.
\<close>

definition hostStartVoice ::
  "'a ADSR_ops \<Rightarrow> int \<Rightarrow> real \<Rightarrow> SamplerSound \<Rightarrow> 'a SamplerVoice \<Rightarrow> 'a SamplerVoice" where
  "hostStartVoice ops midiNoteNumber velocity sound v =
     startNote ops midiNoteNumber velocity (IsSamplerSound sound) 0
       (v\<lparr> currentlyPlayingNote := midiNoteNumber, currentlyPlayingSound := Some sound \<rparr>)"

text \<open>
  The idle voice after the host has started \<open>rampSound\<close> on it at full velocity: at
  the root note (\<open>playingVoice\<close>, pitch ratio 1), one octave below (\<open>slowVoice\<close>, 1/2),
  one octave above (\<open>octaveVoice\<close>, 2) and two octaves above (\<open>highVoice\<close>, 4).
\<close>

definition playingVoice :: "real SamplerVoice" where
  "playingVoice =
     idleVoice\<lparr> currentlyPlayingNote := 60, currentlyPlayingSound := Some rampSound,
                pitchRatio := 1, lgain := 1, rgain := 1, adsr := 1 \<rparr>"

definition slowVoice :: "real SamplerVoice" where
  "slowVoice = playingVoice\<lparr> currentlyPlayingNote := 48, pitchRatio := 1 / 2 \<rparr>"

definition octaveVoice :: "real SamplerVoice" where
  "octaveVoice = playingVoice\<lparr> currentlyPlayingNote := 72, pitchRatio := 2 \<rparr>"

definition highVoice :: "real SamplerVoice" where
  "highVoice = playingVoice\<lparr> currentlyPlayingNote := 84, pitchRatio := 4 \<rparr>"

text \<open>
  The voice that a hard stop of \<open>playingVoice\<close> leaves behind: the fade buffer holds
  the next four frames of the sound, \<open>1, 2, 3, 4\<close>, under the ramp \<open>1, 3/4, 1/2, 1/4\<close>.
\<close>

definition fadingVoice :: "real SamplerVoice" where
  "fadingVoice =
     playingVoice\<lparr> currentlyPlayingNote := - 1, currentlyPlayingSound := None,
                   fadeBuffer := [[1, 3 / 2, 3 / 2, 1], [1, 3 / 2, 3 / 2, 1]],
                   sourceSamplePosition := 4, adsr := 0, startingGain := 1, isFading := True \<rparr>"

text \<open>
  The voice after the host has started the root note again on \<open>fadingVoice\<close>, before
  the pending fade was rendered: \<^verbatim>\<open>startNote\<close> does not touch \<open>isFading\<close>.
\<close>

definition restartedVoice :: "real SamplerVoice" where
  "restartedVoice =
     fadingVoice\<lparr> currentlyPlayingNote := 60, currentlyPlayingSound := Some rampSound,
                  sourceSamplePosition := 0, adsr := 1 \<rparr>"

section \<open>Auxiliary facts\<close>

subsection \<open>Buffers\<close>

lemma map_length_update_same:
  "c < length buf \<Longrightarrow> length ch = length (buf ! c) \<Longrightarrow> map length (buf[c := ch]) = map length buf"
  by (simp add: map_update list_update_same_conv)

lemma addAt_Inr:
  assumes "addAt buf c i x = Inr buf'"
  shows "map length buf' = map length buf"
    and "c < length buf" and "0 \<le> i" and "i < int (length (buf ! c))"
    and "buf' ! c ! nat i = buf ! c ! nat i + x"
    and "\<And>c' k. c' \<noteq> c \<or> k \<noteq> nat i \<Longrightarrow> buf' ! c' ! k = buf ! c' ! k"
  using assms
  by (auto simp: addAt_def map_length_update_same nth_list_update split: if_splits)

lemma copyFrom_Inr:
  assumes "copyFrom buf c 0 src n = Inr buf'"
  shows "map length buf' = map length buf"
    and "c < length buf" and "0 \<le> n" and "n \<le> int (length (buf ! c))" and "n \<le> int (length src)"
    and "\<And>k. k < length (buf ! c) \<Longrightarrow> buf' ! c ! k = (if int k < n then src ! k else buf ! c ! k)"
    and "\<And>c'. c' \<noteq> c \<Longrightarrow> buf' ! c' = buf ! c'"
  using assms
  by (auto simp: copyFrom_def map_length_update_same nth_list_update split: if_splits)

lemma copyFrom_ok:
  assumes "c < length buf" "0 \<le> n" "n \<le> int (length (buf ! c))" "n \<le> int (length src)"
  shows "\<exists>buf'. copyFrom buf c 0 src n = Inr buf'"
  using assms by (simp add: copyFrom_def)

lemma applyGainRamp_Inr:
  assumes "applyGainRamp buf c 0 n g0 g1 = Inr buf'"
  shows "map length buf' = map length buf"
    and "c < length buf" and "0 \<le> n" and "n \<le> int (length (buf ! c))"
    and "\<And>k. k < length (buf ! c) \<Longrightarrow> buf' ! c ! k =
            (if int k < n then buf ! c ! k * (g0 + real k * ((g1 - g0) / real_of_int n)) else buf ! c ! k)"
    and "\<And>c'. c' \<noteq> c \<Longrightarrow> buf' ! c' = buf ! c'"
  using assms
  by (auto simp: applyGainRamp_def map_length_update_same nth_list_update split: if_splits)

lemma clearRegion_Inr:
  assumes "clearRegion buf s n = Inr buf'"
  shows "map length buf' = map length buf"
    and "0 \<le> s" and "0 \<le> n"
    and "\<And>c k. c < length buf \<Longrightarrow> k < length (buf ! c) \<Longrightarrow> buf' ! c ! k =
            (if s \<le> int k \<and> int k < s + n then 0 else buf ! c ! k)"
  using assms
  by (auto simp: clearRegion_def split: if_splits)

lemma clear_shape: "map length (clear buf) = map length buf"
  by (simp add: clear_def)

lemma clear_nth: "c < length buf \<Longrightarrow> k < length (buf ! c) \<Longrightarrow> clear buf ! c ! k = 0"
  by (simp add: clear_def)


lemma shape_nth:
  assumes "map length a = map length b" and "c < length a"
  shows "length (a ! c) = length (b ! c)"
proof -
  have "length a = length b" using assms(1) by (rule map_eq_imp_length_eq)
  with assms show ?thesis by (metis nth_map)
qed

lemma int_of_int64_id: "- (2 ^ 31) \<le> n \<Longrightarrow> n < 2 ^ 31 \<Longrightarrow> int_of_int64 n = n"
  unfolding int_of_int64_def by (simp add: sint_sbintrunc' signed_take_bit_int_eq_self)

lemma int_of_double_floor:
  assumes "0 \<le> x" and "x < 2 ^ 31"
  shows "int_of_double x = Inr \<lfloor>x\<rfloor>"
proof -
  have "\<lfloor>x\<rfloor> < 2 ^ 31" using assms(2) by (simp add: floor_less_iff)
  moreover have "0 \<le> \<lfloor>x\<rfloor>" using assms(1) by simp
  ultimately show ?thesis using assms(1) by (simp add: int_of_double_def truncToZero_def)
qed

lemma read_Inr:
  assumes "0 \<le> n" and "\<forall>ch\<in>set dest. n \<le> int (length ch)"
  shows "\<exists>d. read source dest 0 n 0 = Inr d \<and> length d = length dest
       \<and> (\<forall>c<length dest. length (d ! c) = length (dest ! c)
             \<and> (\<forall>i<length (dest ! c). d ! c ! i
                   = (if int i < n then sourceFrame source c (int i) else dest ! c ! i)))"
  using assms by (simp add: read_def list_all_iff)

lemma buffer_eqI:
  assumes "map length a = map length b"
    and "\<And>c k. c < length a \<Longrightarrow> k < length (a ! c) \<Longrightarrow> a ! c ! k = b ! c ! k"
  shows "a = b"
proof (rule nth_equalityI)
  show l: "length a = length b" using assms(1) by (rule map_eq_imp_length_eq)
  fix c assume c: "c < length a"
  show "a ! c = b ! c"
  proof (rule nth_equalityI)
    show "length (a ! c) = length (b ! c)" using shape_nth [OF assms(1) c] .
    fix k assume "k < length (a ! c)"
    with c show "a ! c ! k = b ! c ! k" by (rule assms(2))
  qed
qed

lemma emitFade_Inr:
  "emitFade fade n cs out = Inr out' \<Longrightarrow>
     map length out' = map length out
     \<and> (\<forall>c<length out. \<forall>k<length (out ! c).
           out' ! c ! k = (if c \<in> set cs \<and> c < length fade \<and> int k < n then fade ! c ! k
                           else out ! c ! k))"
proof (induction cs arbitrary: out)
  case Nil
  then show ?case by simp
next
  case (Cons ch cs)
  show ?case
  proof (cases "ch < length fade")
    case False
    with Cons.prems have "emitFade fade n cs out = Inr out'" by simp
    from Cons.IH [OF this] False show ?thesis by auto
  next
    case True
    with Cons.prems obtain out1 where
      cp: "copyFrom out ch 0 (fade ! ch) n = Inr out1"
      and rest: "emitFade fade n cs out1 = Inr out'"
      by (auto split: sum.splits)
    note c = copyFrom_Inr [OF cp]
    note ih = Cons.IH [OF rest]
    have len: "length out1 = length out" using c(1) by (rule map_eq_imp_length_eq)
    have sh: "map length out' = map length out" using ih c(1) by simp
    have "\<forall>c<length out. \<forall>k<length (out ! c).
           out' ! c ! k = (if c \<in> set (ch # cs) \<and> c < length fade \<and> int k < n then fade ! c ! k
                           else out ! c ! k)"
    proof (intro allI impI)
      fix c' k assume c': "c' < length out" and k: "k < length (out ! c')"
      have l1: "length (out1 ! c') = length (out ! c')"
        using shape_nth [OF c(1), of c'] c' len by simp
      from ih c' k len l1 have a: "out' ! c' ! k =
          (if c' \<in> set cs \<and> c' < length fade \<and> int k < n then fade ! c' ! k else out1 ! c' ! k)"
        by simp
      have b: "out1 ! c' ! k = (if c' = ch \<and> int k < n then fade ! c' ! k else out ! c' ! k)"
      proof (cases "c' = ch")
        case True
        with c(6) [of k] k show ?thesis by simp
      next
        case False
        with c(7) [of c'] show ?thesis by simp
      qed
      show "out' ! c' ! k = (if c' \<in> set (ch # cs) \<and> c' < length fade \<and> int k < n
                              then fade ! c' ! k else out ! c' ! k)"
        unfolding a b using True by auto
    qed
    with sh show ?thesis by blast
  qed
qed

lemma emitFade_ok:
  assumes "0 \<le> n"
    and "\<forall>c\<in>set cs. c < length out \<and> (c < length fade \<longrightarrow>
            n \<le> int (length (out ! c)) \<and> n \<le> int (length (fade ! c)))"
  shows "\<exists>out'. emitFade fade n cs out = Inr out'"
  using assms
proof (induction cs arbitrary: out)
  case Nil
  then show ?case by simp
next
  case (Cons ch cs)
  show ?case
  proof (cases "ch < length fade")
    case False
    with Cons.IH [OF Cons.prems(1), of out] Cons.prems(2) show ?thesis by simp
  next
    case True
    with Cons.prems have "\<exists>out1. copyFrom out ch 0 (fade ! ch) n = Inr out1"
      by (intro copyFrom_ok) simp_all
    then obtain out1 where cp: "copyFrom out ch 0 (fade ! ch) n = Inr out1" by blast
    note c = copyFrom_Inr [OF cp]
    have len: "length out1 = length out" using c(1) by (rule map_eq_imp_length_eq)
    have "\<forall>c\<in>set cs. c < length out1 \<and> (c < length fade \<longrightarrow>
            n \<le> int (length (out1 ! c)) \<and> n \<le> int (length (fade ! c)))"
    proof
      fix c' assume m: "c' \<in> set cs"
      with Cons.prems(2) have x: "c' < length out \<and> (c' < length fade \<longrightarrow>
            n \<le> int (length (out ! c')) \<and> n \<le> int (length (fade ! c')))" by simp
      then have "length (out1 ! c') = length (out ! c')"
        using shape_nth [OF c(1), of c'] len by simp
      with x len show "c' < length out1 \<and> (c' < length fade \<longrightarrow>
            n \<le> int (length (out1 ! c')) \<and> n \<le> int (length (fade ! c')))" by simp
    qed
    from Cons.IH [OF Cons.prems(1) this] obtain out' where "emitFade fade n cs out1 = Inr out'"
      by blast
    with cp True show ?thesis by simp
  qed
qed

subsection \<open>One frame\<close>

lemma interpolate_Inr:
  assumes "interpolate inp pos alpha = Inr x"
  shows "0 \<le> pos" and "pos + 1 < int (length inp)"
    and "x = inp ! nat pos * (1 - alpha) + inp ! nat (pos + 1) * alpha"
  using assms by (auto simp: interpolate_def readAt_def split: if_splits sum.splits)

lemma int_of_double_nonneg: "0 \<le> x \<Longrightarrow> int_of_double x = Inr pos \<Longrightarrow> pos = \<lfloor>x\<rfloor>"
  by (auto simp: int_of_double_def truncToZero_def split: if_splits)


lemma renderFrame_cases:
  assumes "renderFrame ops inL inR stereo cap v out i = Inr (v1, out1)"
  obtains pos l r where
    "int_of_double (sourceSamplePosition v) = Inr pos"
    "interpolate inL pos (sourceSamplePosition v - real_of_int pos) = Inr l"
    "(case inR of Some ch \<Rightarrow> interpolate ch pos (sourceSamplePosition v - real_of_int pos)
      | None \<Rightarrow> Inr l) = Inr r"
    "v1 = v\<lparr> adsr := snd (getNextSample ops (adsr v)),
                 startingGain := (if cap then fst (getNextSample ops (adsr v)) else startingGain v),
                 sourceSamplePosition := sourceSamplePosition v + pitchRatio v \<rparr>"
    "if stereo
     then (\<exists>o1. addAt out 0 i (l * (lgain v * fst (getNextSample ops (adsr v)))) = Inr o1
               \<and> addAt o1 1 i (r * (rgain v * fst (getNextSample ops (adsr v)))) = Inr out1)
     else addAt out 0 i ((l * (lgain v * fst (getNextSample ops (adsr v)))
                          + r * (rgain v * fst (getNextSample ops (adsr v)))) * (1 / 2)) = Inr out1"
  using assms unfolding renderFrame_def Let_def
  by (auto split: sum.splits if_splits)


lemma renderFrame_voice:
  assumes "renderFrame ops inL inR stereo cap v out i = Inr (v1, out1)"
  shows "v1 = v\<lparr> adsr := snd (getNextSample ops (adsr v)),
                 startingGain := (if cap then fst (getNextSample ops (adsr v)) else startingGain v),
                 sourceSamplePosition := sourceSamplePosition v + pitchRatio v \<rparr>"
  using assms by (rule renderFrame_cases)

lemma renderFrame_frame:
  assumes "renderFrame ops inL inR stereo cap v out i = Inr (v1, out1)"
  shows "map length out1 = map length out \<and> 0 \<le> i \<and> (\<forall>c k. k \<noteq> nat i \<longrightarrow> out1 ! c ! k = out ! c ! k)"
proof (rule renderFrame_cases [OF assms])
  fix pos l r
  assume w: "if stereo
     then (\<exists>o1. addAt out 0 i (l * (lgain v * fst (getNextSample ops (adsr v)))) = Inr o1
               \<and> addAt o1 1 i (r * (rgain v * fst (getNextSample ops (adsr v)))) = Inr out1)
     else addAt out 0 i ((l * (lgain v * fst (getNextSample ops (adsr v)))
                          + r * (rgain v * fst (getNextSample ops (adsr v)))) * (1 / 2)) = Inr out1"
  show ?thesis
  proof (cases stereo)
    case True
    with w obtain o1 where a: "addAt out 0 i (l * (lgain v * fst (getNextSample ops (adsr v)))) = Inr o1"
      and b: "addAt o1 1 i (r * (rgain v * fst (getNextSample ops (adsr v)))) = Inr out1"
      by auto
    show ?thesis
      using addAt_Inr(1,3,6) [OF a] addAt_Inr(1,6) [OF b] by simp
  next
    case False
    with w have a: "addAt out 0 i ((l * (lgain v * fst (getNextSample ops (adsr v)))
                          + r * (rgain v * fst (getNextSample ops (adsr v)))) * (1 / 2)) = Inr out1"
      by simp
    show ?thesis
      using addAt_Inr(1,3,6) [OF a] by simp
  qed
qed

lemma renderFrame_value:
  assumes "renderFrame ops inL inR stereo cap v out i = Inr (v1, out1)"
    and "0 \<le> sourceSamplePosition v"
  shows "out1 ! 0 ! nat i = out ! 0 ! nat i
            + (if stereo then frameLeft ops inL v 0
               else (frameLeft ops inL v 0 + frameRight ops inL inR v 0) / 2)
       \<and> (stereo \<longrightarrow> out1 ! 1 ! nat i = out ! 1 ! nat i + frameRight ops inL inR v 0)
       \<and> (\<forall>c. (if stereo then 1 else 0) < c \<longrightarrow> out1 ! c = out ! c)"
proof (rule renderFrame_cases [OF assms(1)])
  fix pos l r
  assume p: "int_of_double (sourceSamplePosition v) = Inr pos"
    and l: "interpolate inL pos (sourceSamplePosition v - real_of_int pos) = Inr l"
    and r: "(case inR of Some ch \<Rightarrow> interpolate ch pos (sourceSamplePosition v - real_of_int pos)
      | None \<Rightarrow> Inr l) = Inr r"
    and w: "if stereo
     then (\<exists>o1. addAt out 0 i (l * (lgain v * fst (getNextSample ops (adsr v)))) = Inr o1
               \<and> addAt o1 1 i (r * (rgain v * fst (getNextSample ops (adsr v)))) = Inr out1)
     else addAt out 0 i ((l * (lgain v * fst (getNextSample ops (adsr v)))
                          + r * (rgain v * fst (getNextSample ops (adsr v)))) * (1 / 2)) = Inr out1"
  have pos: "pos = \<lfloor>sourceSamplePosition v\<rfloor>"
    using int_of_double_nonneg [OF assms(2) p] .
  have lv: "l * (lgain v * fst (getNextSample ops (adsr v))) = frameLeft ops inL v 0"
    using interpolate_Inr(3) [OF l] pos
    by (simp add: frameLeft_def floorInterpolate_def envelopeAt_def envelopeState_def)
  have rv: "r * (rgain v * fst (getNextSample ops (adsr v))) = frameRight ops inL inR v 0"
  proof (cases inR)
    case None
    with r have "r = l" by simp
    with None interpolate_Inr(3) [OF l] pos show ?thesis
      by (simp add: frameRight_def floorInterpolate_def envelopeAt_def envelopeState_def)
  next
    case (Some ch)
    with r have "interpolate ch pos (sourceSamplePosition v - real_of_int pos) = Inr r" by simp
    from interpolate_Inr(3) [OF this] Some pos show ?thesis
      by (simp add: frameRight_def floorInterpolate_def envelopeAt_def envelopeState_def)
  qed
  show ?thesis
  proof (cases stereo)
    case True
    with w obtain o1 where a: "addAt out 0 i (frameLeft ops inL v 0) = Inr o1"
      and b: "addAt o1 1 i (frameRight ops inL inR v 0) = Inr out1"
      unfolding lv rv by auto
    have "out1 ! 0 ! nat i = o1 ! 0 ! nat i" using addAt_Inr(6) [OF b, of 0 "nat i"] by simp
    moreover have "o1 ! 1 ! nat i = out ! 1 ! nat i" using addAt_Inr(6) [OF a, of 1 "nat i"] by simp
    moreover have "\<And>c. 1 < c \<Longrightarrow> out1 ! c = out ! c"
      using a b by (auto simp: addAt_def split: if_splits)
    ultimately show ?thesis
      using True addAt_Inr(5) [OF a] addAt_Inr(5) [OF b] by simp
  next
    case False
    with w have a: "addAt out 0 i ((frameLeft ops inL v 0 + frameRight ops inL inR v 0) * (1 / 2)) = Inr out1"
      unfolding lv rv by simp
    have "\<And>c. 0 < c \<Longrightarrow> out1 ! c = out ! c"
      using a by (auto simp: addAt_def split: if_splits)
    then show ?thesis
      using False addAt_Inr(5) [OF a] by simp
  qed
qed


lemma renderFrame_ranges:
  assumes "renderFrame ops inL inR stereo cap v out i = Inr (v1, out1)"
    and "0 \<le> sourceSamplePosition v"
  shows "\<lfloor>sourceSamplePosition v\<rfloor> + 1 < int (length inL)
       \<and> (\<forall>ch. inR = Some ch \<longrightarrow> \<lfloor>sourceSamplePosition v\<rfloor> + 1 < int (length ch))
       \<and> 0 < length out \<and> i < int (length (out ! 0))
       \<and> (stereo \<longrightarrow> 1 < length out \<and> i < int (length (out ! 1)))"
proof (rule renderFrame_cases [OF assms(1)])
  fix pos l r
  assume p: "int_of_double (sourceSamplePosition v) = Inr pos"
    and l: "interpolate inL pos (sourceSamplePosition v - real_of_int pos) = Inr l"
    and r: "(case inR of Some ch \<Rightarrow> interpolate ch pos (sourceSamplePosition v - real_of_int pos)
      | None \<Rightarrow> Inr l) = Inr r"
    and w: "if stereo
     then (\<exists>o1. addAt out 0 i (l * (lgain v * fst (getNextSample ops (adsr v)))) = Inr o1
               \<and> addAt o1 1 i (r * (rgain v * fst (getNextSample ops (adsr v)))) = Inr out1)
     else addAt out 0 i ((l * (lgain v * fst (getNextSample ops (adsr v)))
                          + r * (rgain v * fst (getNextSample ops (adsr v)))) * (1 / 2)) = Inr out1"
  have pos: "pos = \<lfloor>sourceSamplePosition v\<rfloor>"
    using int_of_double_nonneg [OF assms(2) p] .
  have a: "\<lfloor>sourceSamplePosition v\<rfloor> + 1 < int (length inL)"
    using interpolate_Inr(2) [OF l] pos by simp
  have b: "\<forall>ch. inR = Some ch \<longrightarrow> \<lfloor>sourceSamplePosition v\<rfloor> + 1 < int (length ch)"
  proof (intro allI impI)
    fix ch assume "inR = Some ch"
    with r have "interpolate ch pos (sourceSamplePosition v - real_of_int pos) = Inr r" by simp
    from interpolate_Inr(2) [OF this] pos show "\<lfloor>sourceSamplePosition v\<rfloor> + 1 < int (length ch)"
      by simp
  qed
  have c: "0 < length out \<and> i < int (length (out ! 0))
       \<and> (stereo \<longrightarrow> 1 < length out \<and> i < int (length (out ! 1)))"
  proof (cases stereo)
    case True
    with w obtain o1 where x: "addAt out 0 i (l * (lgain v * fst (getNextSample ops (adsr v)))) = Inr o1"
      and y: "addAt o1 1 i (r * (rgain v * fst (getNextSample ops (adsr v)))) = Inr out1"
      by auto
    have "length o1 = length out" using addAt_Inr(1) [OF x] by (rule map_eq_imp_length_eq)
    moreover have "length (o1 ! 1) = length (out ! 1)"
      using x by (auto simp: addAt_def nth_list_update split: if_splits)
    ultimately show ?thesis
      using addAt_Inr(2,4) [OF x] addAt_Inr(2,4) [OF y] by simp
  next
    case False
    with w have x: "addAt out 0 i ((l * (lgain v * fst (getNextSample ops (adsr v)))
                          + r * (rgain v * fst (getNextSample ops (adsr v)))) * (1 / 2)) = Inr out1"
      by simp
    show ?thesis using False addAt_Inr(2,4) [OF x] by simp
  qed
  from a b c show ?thesis by blast
qed

lemma renderLoop_Suc_cases:
  assumes "renderLoop ops ps inL inR stereo cap v out i (Suc n) = Inr (v', out')"
  obtains (stop) v1 where
      "renderFrame ops inL inR stereo cap v out i = Inr (v1, out')"
      "sourceSamplePosition v1 > real_of_int (lengthS ps)"
      "stopNote ops 0 False v1 = Inr v'"
    | (continue) v1 out1 where
      "renderFrame ops inL inR stereo cap v out i = Inr (v1, out1)"
      "\<not> sourceSamplePosition v1 > real_of_int (lengthS ps)"
      "renderLoop ops ps inL inR stereo False v1 out1 (i + 1) n = Inr (v', out')"
  using assms by (auto split: sum.splits if_splits)

lemma renderLoop_frame:
  "renderLoop ops ps inL inR stereo cap v out i n = Inr (v', out') \<Longrightarrow>
     map length out' = map length out
     \<and> (\<forall>c k. int k < i \<or> i + int n \<le> int k \<longrightarrow> out' ! c ! k = out ! c ! k)"
proof (induction n arbitrary: cap v out i)
  case 0
  then show ?case by simp
next
  case (Suc n)
  from Suc.prems show ?case
  proof (cases rule: renderLoop_Suc_cases)
    case (stop v1)
    from renderFrame_frame [OF stop(1)] show ?thesis by auto
  next
    case (continue v1 out1)
    from renderFrame_frame [OF continue(1)] Suc.IH [OF continue(3)] show ?thesis by auto
  qed
qed


lemma envelopeAt_Suc:
  "envelopeAt ops a (Suc j) = envelopeAt ops (snd (getNextSample ops a)) j"
  by (simp add: envelopeAt_def envelopeState_def funpow_Suc_right del: funpow.simps)

lemma position_shift:
  assumes "v1 = v\<lparr> adsr := a, startingGain := g,
                 sourceSamplePosition := sourceSamplePosition v + pitchRatio v \<rparr>"
  shows "sourceSamplePosition v1 + real j * pitchRatio v1
           = sourceSamplePosition v + real (Suc j) * pitchRatio v"
  using assms by (simp add: algebra_simps)

lemma frameLeft_shift:
  assumes "v1 = v\<lparr> adsr := snd (getNextSample ops (adsr v)), startingGain := g,
                 sourceSamplePosition := sourceSamplePosition v + pitchRatio v \<rparr>"
  shows "frameLeft ops inL v1 j = frameLeft ops inL v (Suc j)"
  unfolding frameLeft_def position_shift [OF assms] envelopeAt_Suc
  using assms by simp

lemma frameRight_shift:
  assumes "v1 = v\<lparr> adsr := snd (getNextSample ops (adsr v)), startingGain := g,
                 sourceSamplePosition := sourceSamplePosition v + pitchRatio v \<rparr>"
  shows "frameRight ops inL inR v1 j = frameRight ops inL inR v (Suc j)"
  unfolding frameRight_def position_shift [OF assms] envelopeAt_Suc
  using assms by simp

subsection \<open>The render loop\<close>

lemma renderLoop_value:
  assumes "renderLoop ops ps inL inR stereo cap v out i n = Inr (v', out')"
    and "0 \<le> sourceSamplePosition v" and "0 \<le> pitchRatio v"
    and "j < n"
    and "\<forall>k<j. sourceSamplePosition v + real (Suc k) * pitchRatio v \<le> real_of_int (lengthS ps)"
  shows "out' ! 0 ! nat (i + int j) = out ! 0 ! nat (i + int j) + frameMix ops inL inR stereo v j
       \<and> (stereo \<longrightarrow> out' ! 1 ! nat (i + int j) = out ! 1 ! nat (i + int j) + frameRight ops inL inR v j)"
  using assms
proof (induction n arbitrary: cap v out i j)
  case 0
  then show ?case by simp
next
  case (Suc n)
  from Suc.prems(1) show ?case
  proof (cases rule: renderLoop_Suc_cases)
    case (stop v1)
    have "j = 0"
    proof (rule ccontr)
      assume "j \<noteq> 0"
      then have "sourceSamplePosition v + real (Suc 0) * pitchRatio v \<le> real_of_int (lengthS ps)"
        using Suc.prems(5) by blast
      with stop(2) renderFrame_voice [OF stop(1)] show False by simp
    qed
    with renderFrame_value [OF stop(1) Suc.prems(2)] show ?thesis
      by (simp add: frameMix_def)
  next
    case (continue v1 out1)
    note v1 = renderFrame_voice [OF continue(1)]
    note fr = renderFrame_frame [OF continue(1)]
    show ?thesis
    proof (cases j)
      case 0
      from fr have "int (nat i) < i + 1" by simp
      with renderLoop_frame [OF continue(3)]
      have "\<forall>c. out' ! c ! nat i = out1 ! c ! nat i" by blast
      with 0 renderFrame_value [OF continue(1) Suc.prems(2)] show ?thesis
        by (simp add: frameMix_def)
    next
      case (Suc j')
      have p1: "0 \<le> sourceSamplePosition v1" and r1: "0 \<le> pitchRatio v1"
        using v1 Suc.prems(2,3) by simp_all
      have j': "j' < n" using Suc Suc.prems(4) by simp
      have no: "\<forall>k<j'. sourceSamplePosition v1 + real (Suc k) * pitchRatio v1
                  \<le> real_of_int (lengthS ps)"
      proof (intro allI impI)
        fix k assume "k < j'"
        then have "Suc k < j" using Suc by simp
        with Suc.prems(5) have "sourceSamplePosition v + real (Suc (Suc k)) * pitchRatio v
                  \<le> real_of_int (lengthS ps)" by blast
        then show "sourceSamplePosition v1 + real (Suc k) * pitchRatio v1 \<le> real_of_int (lengthS ps)"
          using v1 by (simp add: algebra_simps)
      qed
      note ih = Suc.IH [OF continue(3) p1 r1 j' no]
      have "0 \<le> i" using fr by blast
      then have idx: "nat (i + 1 + int j') = nat (i + int j)" "nat (i + int j) \<noteq> nat i"
        using Suc by simp_all
      have same: "\<forall>c. out1 ! c ! nat (i + int j) = out ! c ! nat (i + int j)"
        using fr idx(2) by blast
      have "frameMix ops inL inR stereo v1 j' = frameMix ops inL inR stereo v j"
        using frameLeft_shift [OF v1] frameRight_shift [OF v1] Suc by (simp add: frameMix_def)
      moreover have "frameRight ops inL inR v1 j' = frameRight ops inL inR v j"
        using frameRight_shift [OF v1] Suc by simp
      ultimately show ?thesis using ih same idx(1) by simp
    qed
  qed
qed


lemma renderLoop_ranges:
  assumes "renderLoop ops ps inL inR stereo cap v out i n = Inr (v', out')"
    and "0 \<le> sourceSamplePosition v" and "0 \<le> pitchRatio v"
    and "j < n"
    and "\<forall>k<j. sourceSamplePosition v + real (Suc k) * pitchRatio v \<le> real_of_int (lengthS ps)"
  shows "\<lfloor>sourceSamplePosition v + real j * pitchRatio v\<rfloor> + 1 < int (length inL)
       \<and> (\<forall>ch. inR = Some ch \<longrightarrow>
             \<lfloor>sourceSamplePosition v + real j * pitchRatio v\<rfloor> + 1 < int (length ch))
       \<and> 0 \<le> i \<and> i + int j < int (length (out ! 0))
       \<and> (stereo \<longrightarrow> i + int j < int (length (out ! 1)))"
  using assms
proof (induction n arbitrary: cap v out i j)
  case 0
  then show ?case by simp
next
  case (Suc n)
  from Suc.prems(1) show ?case
  proof (cases rule: renderLoop_Suc_cases)
    case (stop v1)
    have "j = 0"
    proof (rule ccontr)
      assume "j \<noteq> 0"
      then have "sourceSamplePosition v + real (Suc 0) * pitchRatio v \<le> real_of_int (lengthS ps)"
        using Suc.prems(5) by blast
      with stop(2) renderFrame_voice [OF stop(1)] show False by simp
    qed
    with renderFrame_ranges [OF stop(1) Suc.prems(2)] renderFrame_frame [OF stop(1)]
    show ?thesis by simp
  next
    case (continue v1 out1)
    note v1 = renderFrame_voice [OF continue(1)]
    note fr = renderFrame_frame [OF continue(1)]
    note rg = renderFrame_ranges [OF continue(1) Suc.prems(2)]
    show ?thesis
    proof (cases j)
      case 0
      with rg fr show ?thesis by simp
    next
      case (Suc j')
      have p1: "0 \<le> sourceSamplePosition v1" and r1: "0 \<le> pitchRatio v1"
        using v1 Suc.prems(2,3) by simp_all
      have j': "j' < n" using Suc Suc.prems(4) by simp
      have no: "\<forall>k<j'. sourceSamplePosition v1 + real (Suc k) * pitchRatio v1
                  \<le> real_of_int (lengthS ps)"
      proof (intro allI impI)
        fix k assume "k < j'"
        then have "Suc k < j" using Suc by simp
        with Suc.prems(5) have "sourceSamplePosition v + real (Suc (Suc k)) * pitchRatio v
                  \<le> real_of_int (lengthS ps)" by blast
        then show "sourceSamplePosition v1 + real (Suc k) * pitchRatio v1 \<le> real_of_int (lengthS ps)"
          using v1 by (simp add: algebra_simps)
      qed
      note ih = Suc.IH [OF continue(3) p1 r1 j' no]
      have pos: "sourceSamplePosition v1 + real j' * pitchRatio v1
                   = sourceSamplePosition v + real j * pitchRatio v"
        using position_shift [OF v1, of j'] Suc by simp
      have sh: "map length out1 = map length out" using fr by blast
      have l0: "length (out1 ! 0) = length (out ! 0)"
        using shape_nth [OF sh, of 0] rg map_eq_imp_length_eq [OF sh] by simp
      have l1: "stereo \<Longrightarrow> length (out1 ! 1) = length (out ! 1)"
        using shape_nth [OF sh, of 1] rg map_eq_imp_length_eq [OF sh] by simp
      from ih show ?thesis
        unfolding pos using l0 l1 Suc fr by auto
    qed
  qed
qed

lemma playback_branch_loop:
  assumes "\<not> isFading v" and "currentlyPlayingSound v = Some sound" and "data sound = Some d"
    and "renderNextBlock ops v output startSample numSamples = Inr (v', output')"
  shows "renderLoop ops sound (d ! 0) (if length d > 1 then Some (d ! 1) else None)
           (length output > 1) True v output startSample (nat numSamples) = Inr (v', output')
         \<and> d \<noteq> [] \<and> output \<noteq> []"
  using assms by (auto simp: renderNextBlock.simps split: if_splits)

lemma renderFrames_frame:
  "renderFrames ops inL inR stereo cap v out i m = Inr (v1, out1) \<Longrightarrow>
     map length out1 = map length out
     \<and> (\<forall>c k. int k < i \<or> i + int m \<le> int k \<longrightarrow> out1 ! c ! k = out ! c ! k)"
proof (induction m arbitrary: cap v out i)
  case 0
  then show ?case by simp
next
  case (Suc m)
  from Suc.prems obtain v0 out0 where
    f: "renderFrame ops inL inR stereo cap v out i = Inr (v0, out0)"
    and r: "renderFrames ops inL inR stereo False v0 out0 (i + 1) m = Inr (v1, out1)"
    by (auto split: sum.splits)
  from renderFrame_frame [OF f] Suc.IH [OF r] show ?case by auto
qed

lemma renderLoop_overrun:
  assumes "renderLoop ops ps inL inR stereo cap v out i n = Inr (v', out')"
    and "k < n"
    and "sourceSamplePosition v + real (Suc k) * pitchRatio v > real_of_int (lengthS ps)"
  shows "\<exists>j\<le>k. \<exists>v1.
           (\<forall>m<j. sourceSamplePosition v + real (Suc m) * pitchRatio v \<le> real_of_int (lengthS ps))
         \<and> sourceSamplePosition v + real (Suc j) * pitchRatio v > real_of_int (lengthS ps)
         \<and> renderFrames ops inL inR stereo cap v out i (Suc j) = Inr (v1, out')
         \<and> sourceSamplePosition v1 = sourceSamplePosition v + real (Suc j) * pitchRatio v
         \<and> stopNote ops 0 False v1 = Inr v'"
  using assms
proof (induction n arbitrary: cap v out i k)
  case 0
  then show ?case by simp
next
  case (Suc n)
  from Suc.prems(1) show ?case
  proof (cases rule: renderLoop_Suc_cases)
    case (stop v1)
    note v1 = renderFrame_voice [OF stop(1)]
    have "renderFrames ops inL inR stereo cap v out i (Suc 0) = Inr (v1, out')"
      using stop(1) by simp
    moreover have "sourceSamplePosition v1 = sourceSamplePosition v + real (Suc 0) * pitchRatio v"
      using v1 by simp
    ultimately show ?thesis using stop(2,3) by (intro exI [of _ 0] exI [of _ v1]) simp
  next
    case (continue v1 out1)
    note v1 = renderFrame_voice [OF continue(1)]
    have first: "sourceSamplePosition v + real (Suc 0) * pitchRatio v \<le> real_of_int (lengthS ps)"
      using continue(2) v1 by simp
    with Suc.prems(3) have "k \<noteq> 0" by (cases k) auto
    then obtain k' where k: "k = Suc k'" by (cases k) auto
    have k': "k' < n" using k Suc.prems(2) by simp
    have over: "sourceSamplePosition v1 + real (Suc k') * pitchRatio v1 > real_of_int (lengthS ps)"
      using position_shift [OF v1, of "Suc k'"] Suc.prems(3) k by simp
    from Suc.IH [OF continue(3) k' over] obtain j' v2 where
      j': "j' \<le> k'"
      and no: "\<forall>m<j'. sourceSamplePosition v1 + real (Suc m) * pitchRatio v1 \<le> real_of_int (lengthS ps)"
      and ov: "sourceSamplePosition v1 + real (Suc j') * pitchRatio v1 > real_of_int (lengthS ps)"
      and fr: "renderFrames ops inL inR stereo False v1 out1 (i + 1) (Suc j') = Inr (v2, out')"
      and ps: "sourceSamplePosition v2 = sourceSamplePosition v1 + real (Suc j') * pitchRatio v1"
      and st: "stopNote ops 0 False v2 = Inr v'"
      by blast
    have sh: "sourceSamplePosition v1 + real (Suc m) * pitchRatio v1
                = sourceSamplePosition v + real (Suc (Suc m)) * pitchRatio v" for m
      using position_shift [OF v1, of "Suc m"] .
    have no': "\<forall>m<Suc j'. sourceSamplePosition v + real (Suc m) * pitchRatio v
                 \<le> real_of_int (lengthS ps)"
    proof (intro allI impI)
      fix m assume m: "m < Suc j'"
      show "sourceSamplePosition v + real (Suc m) * pitchRatio v \<le> real_of_int (lengthS ps)"
      proof (cases m)
        case 0
        with first show ?thesis by simp
      next
        case (Suc m')
        with m no have "sourceSamplePosition v1 + real (Suc m') * pitchRatio v1
                 \<le> real_of_int (lengthS ps)" by simp
        with Suc show ?thesis unfolding sh by simp
      qed
    qed
    have fr': "renderFrames ops inL inR stereo cap v out i (Suc (Suc j')) = Inr (v2, out')"
      using continue(1) fr by simp
    show ?thesis
      using j' k no' ov ps st fr' unfolding sh
      by (intro exI [of _ "Suc j'"] exI [of _ v2]) simp
  qed
qed

lemma SamplerVoice_new_fadeBuffer:
  assumes "SamplerVoice_new initial n = Inr v"
  shows "bufferSize v = n \<and> 0 \<le> n \<and> length (fadeBuffer v) = 2
       \<and> (\<forall>ch\<in>set (fadeBuffer v). int (length ch) = bufferSize v)"
  using assms by (auto simp: SamplerVoice_new_def AudioBuffer_new_def split: if_splits)

subsection \<open>The hard stop\<close>

lemma fadeEndSample_floor:
  assumes "0 \<le> bufferSize v" and "bufferSize v < 2 ^ 31" and "0 \<le> pitchRatio v"
  shows "fadeEndSample v
           = Inr (if pitchRatio v < 1 then \<lfloor>real_of_int (bufferSize v) * pitchRatio v\<rfloor>
                  else bufferSize v)
         \<and> 0 \<le> (if pitchRatio v < 1 then \<lfloor>real_of_int (bufferSize v) * pitchRatio v\<rfloor>
                  else bufferSize v)
         \<and> (if pitchRatio v < 1 then \<lfloor>real_of_int (bufferSize v) * pitchRatio v\<rfloor>
                  else bufferSize v) \<le> bufferSize v"
proof (cases "pitchRatio v < 1")
  case False
  with assms show ?thesis by (simp add: fadeEndSample_def)
next
  case True
  let ?x = "real_of_int (bufferSize v) * pitchRatio v"
  have x0: "0 \<le> ?x" using assms(1,3) by simp
  have "?x \<le> real_of_int (bufferSize v) * 1"
    using True assms(1) by (intro mult_left_mono) simp_all
  then have xb: "?x \<le> real_of_int (bufferSize v)" by simp
  have "real_of_int (bufferSize v) < 2 ^ 31" using assms(2) by simp
  with xb have "?x < 2 ^ 31" by linarith
  from int_of_double_floor [OF x0 this] have "fadeEndSample v = Inr \<lfloor>?x\<rfloor>"
    using True by (simp add: fadeEndSample_def)
  moreover have "0 \<le> \<lfloor>?x\<rfloor>" using x0 by simp
  moreover have "\<lfloor>?x\<rfloor> \<le> bufferSize v" using xb by (simp add: floor_le_iff)
  ultimately show ?thesis using True by simp
qed

lemma finishHardStop_result:
  assumes "fadeBuffer v \<noteq> []"
    and "\<forall>n\<in>set (map length (fadeBuffer v)). bufferSize v \<le> int n"
    and "0 \<le> bufferSize v" and "bufferSize v < 2 ^ 31" and "0 \<le> pitchRatio v"
    and "e = (if pitchRatio v < 1 then \<lfloor>real_of_int (bufferSize v) * pitchRatio v\<rfloor>
              else bufferSize v)"
  shows "\<exists>fb3. finishHardStop ops v
                 = Inr ((clearCurrentNote (v\<lparr> fadeBuffer := fb3, isFading := True \<rparr>))
                          \<lparr> adsr := reset ops (adsr v) \<rparr>)
        \<and> map length fb3 = map length (fadeBuffer v)
        \<and> (\<forall>c<length (fadeBuffer v). \<forall>k<length (fadeBuffer v ! c).
              fb3 ! c ! k = fadedSample (fadeBuffer v) (bufferSize v) e (startingGain v) c k)"
proof -
  let ?fb = "fadeBuffer v" and ?g = "startingGain v" and ?b = "bufferSize v"
  from fadeEndSample_floor [OF assms(3,4,5)] assms(6)
  have es: "fadeEndSample v = Inr e" and e0: "0 \<le> e" and eb: "e \<le> ?b" by simp_all
  have len0: "0 < length ?fb" using assms(1) by simp
  have big: "c < length ?fb \<Longrightarrow> ?b \<le> int (length (?fb ! c))" for c
    using assms(2) by simp
  \<comment> \<open>the ramp on channel 0\<close>
  have "applyGainRamp ?fb 0 0 e ?g 0 \<noteq> Inl WriteOutOfRange"
    using len0 e0 eb big [of 0] by (simp add: applyGainRamp_def)
  then obtain fb1 where r1: "applyGainRamp ?fb 0 0 e ?g 0 = Inr fb1"
    by (auto simp: applyGainRamp_def split: if_splits)
  note a1 = applyGainRamp_Inr [OF r1]
  have l1: "length fb1 = length ?fb" using a1(1) by (rule map_eq_imp_length_eq)
  \<comment> \<open>the ramp on channel 1\<close>
  have "\<exists>fb2. (if length fb1 > 1 then applyGainRamp fb1 1 0 e ?g 0 else Inr fb1) = Inr fb2"
  proof (cases "length fb1 > 1")
    case False
    then show ?thesis by simp
  next
    case True
    then have "length (fb1 ! 1) = length (?fb ! 1)" using shape_nth [OF a1(1), of 1] l1 by simp
    with True l1 e0 eb big [of 1] show ?thesis by (simp add: applyGainRamp_def)
  qed
  then obtain fb2 where
    r2: "(if length fb1 > 1 then applyGainRamp fb1 1 0 e ?g 0 else Inr fb1) = Inr fb2"
    by blast
  have s2: "map length fb2 = map length ?fb"
    using r2 a1(1) applyGainRamp_Inr(1) [of fb1 1 e ?g 0 fb2] by (auto split: if_splits)
  have l2: "length fb2 = length ?fb" using s2 by (rule map_eq_imp_length_eq)
  have v2: "fb2 ! c ! k = (if c < 2 \<and> int k < e
                            then ?fb ! c ! k * (?g + real k * ((0 - ?g) / real_of_int e))
                            else ?fb ! c ! k)"
    if c: "c < length ?fb" and k: "k < length (?fb ! c)" for c k
  proof -
    have f1: "fb1 ! c ! k = (if c = 0 \<and> int k < e
                            then ?fb ! c ! k * (?g + real k * ((0 - ?g) / real_of_int e))
                            else ?fb ! c ! k)"
    proof (cases "c = 0")
      case True
      with a1(5) [of k] k show ?thesis by simp
    next
      case False
      with a1(6) [of c] show ?thesis by simp
    qed
    show ?thesis
    proof (cases "length fb1 > 1")
      case False
      with r2 have "fb2 = fb1" by simp
      with f1 False l1 c show ?thesis by auto
    next
      case True
      with r2 have r2': "applyGainRamp fb1 1 0 e ?g 0 = Inr fb2" by simp
      note a2 = applyGainRamp_Inr [OF r2']
      show ?thesis
      proof (cases "c = 1")
        case True
        have "length (fb1 ! 1) = length (?fb ! 1)" using shape_nth [OF a1(1), of 1] l1 c True by simp
        with a2(5) [of k] k True have "fb2 ! 1 ! k = (if int k < e
             then fb1 ! 1 ! k * (?g + real k * ((0 - ?g) / real_of_int e)) else fb1 ! 1 ! k)"
          by simp
        with f1 True show ?thesis by simp
      next
        case False
        with a2(6) [of c] f1 show ?thesis by auto
      qed
    qed
  qed
  \<comment> \<open>the cleared tail\<close>
  have "list_all (\<lambda>ch. e + (?b - e) \<le> int (length ch)) fb2"
  proof -
    have "\<forall>n\<in>set (map length fb2). ?b \<le> int n" using assms(2) s2 by simp
    then show ?thesis by (simp add: list_all_iff)
  qed
  then obtain fb3 where r3: "clearRegion fb2 e (?b - e) = Inr fb3"
    using e0 eb by (simp add: clearRegion_def)
  note a3 = clearRegion_Inr [OF r3]
  have s3: "map length fb3 = map length ?fb" using a3(1) s2 by simp
  have v3: "\<forall>c<length ?fb. \<forall>k<length (?fb ! c).
              fb3 ! c ! k = fadedSample ?fb ?b e ?g c k"
  proof (intro allI impI)
    fix c k assume c: "c < length ?fb" and k: "k < length (?fb ! c)"
    have "length (fb2 ! c) = length (?fb ! c)" using shape_nth [OF s2, of c] c l2 by simp
    with a3(4) [of c k] c k l2
    have "fb3 ! c ! k = (if e \<le> int k \<and> int k < e + (?b - e) then 0 else fb2 ! c ! k)" by simp
    with v2 [OF c k] show "fb3 ! c ! k = fadedSample ?fb ?b e ?g c k"
      by (simp add: fadedSample_def)
  qed
  have "finishHardStop ops v
          = Inr ((clearCurrentNote (v\<lparr> fadeBuffer := fb3, isFading := True \<rparr>))
                   \<lparr> adsr := reset ops (adsr v) \<rparr>)"
    unfolding finishHardStop_def using es r1 r2 r3 by simp
  with s3 v3 show ?thesis by blast
qed

lemma stopNote_reentrant: "renderingFade v \<Longrightarrow> stopNote ops velocity False v = Inr v"
  by (simp add: stopNote.simps)

lemma renderLoop_nested:
  "renderingFade v \<Longrightarrow> renderLoop ops ps inL inR stereo cap v out i n = Inr (v', out') \<Longrightarrow>
     v' = v\<lparr> sourceSamplePosition := sourceSamplePosition v', adsr := adsr v',
              startingGain := startingGain v' \<rparr>"
proof (induction n arbitrary: cap v out i)
  case 0
  then show ?case by simp
next
  case (Suc n)
  from Suc.prems(2) show ?case
  proof (cases rule: renderLoop_Suc_cases)
    case (stop v1)
    note v1 = renderFrame_voice [OF stop(1)]
    have "renderingFade v1" using v1 Suc.prems(1) by simp
    with stop(3) have "v' = v1" by (simp add: stopNote_reentrant)
    with v1 show ?thesis by simp
  next
    case (continue v1 out1)
    note v1 = renderFrame_voice [OF continue(1)]
    have "renderingFade v1" using v1 Suc.prems(1) by simp
    from Suc.IH [OF this continue(3)] v1 show ?thesis by simp
  qed
qed

lemma renderNextBlock_shape:
  assumes "renderNextBlock ops v out s n = Inr (v', out')"
  shows "map length out' = map length out"
proof (cases "isFading v")
  case True
  with assms obtain o1 where "emitFade (fadeBuffer v) n [0..<length out] out = Inr o1" "out' = o1"
    by (auto simp: renderNextBlock.simps split: sum.splits)
  with emitFade_Inr [of "fadeBuffer v" n "[0..<length out]" out o1] show ?thesis by simp
next
  case False
  show ?thesis
  proof (cases "currentlyPlayingSound v")
    case None
    with False assms show ?thesis by (simp add: renderNextBlock.simps)
  next
    case (Some ps)
    with False assms obtain d where d: "data ps = Some d"
      by (auto simp: renderNextBlock.simps split: option.splits)
    from playback_branch_loop [OF False Some d assms] renderLoop_frame show ?thesis by blast
  qed
qed

lemma renderNextBlock_nested:
  assumes "renderingFade v" and "renderNextBlock ops v out s n = Inr (v', out')"
  shows "v' = v\<lparr> sourceSamplePosition := sourceSamplePosition v', adsr := adsr v',
                  startingGain := startingGain v', isFading := False \<rparr>"
proof (cases "isFading v")
  case True
  with assms(2) have "v' = v\<lparr> isFading := False \<rparr>"
    by (auto simp: renderNextBlock.simps split: sum.splits)
  then show ?thesis by simp
next
  case False
  show ?thesis
  proof (cases "currentlyPlayingSound v")
    case None
    with False assms(2) have "v' = v" by (simp add: renderNextBlock.simps)
    with False show ?thesis by simp
  next
    case (Some ps)
    with False assms(2) obtain d where d: "data ps = Some d"
      by (auto simp: renderNextBlock.simps split: option.splits)
    from playback_branch_loop [OF False Some d assms(2)]
    have "renderLoop ops ps (d ! 0) (if length d > 1 then Some (d ! 1) else None)
           (length out > 1) True v out s (nat n) = Inr (v', out')" by blast
    from renderLoop_nested [OF assms(1) this] obtain p a g where
      "v' = v\<lparr> sourceSamplePosition := p, adsr := a, startingGain := g \<rparr>"
      by blast
    then show ?thesis using False by (intro SamplerVoice.equality) simp_all

  qed
qed


lemma stopNote_hard_unfold:
  "\<not> renderingFade v \<Longrightarrow>
     stopNote ops velocity False v
       = (case renderNextBlock ops (v\<lparr> fadeBuffer := clear (fadeBuffer v), renderingFade := True \<rparr>)
                (clear (fadeBuffer v)) 0 (bufferSize v) of
            Inl e \<Rightarrow> Inl e
          | Inr (v1, fb) \<Rightarrow> finishHardStop ops (v1\<lparr> fadeBuffer := fb, renderingFade := False \<rparr>))"
  by (simp add: stopNote.simps)

lemma finishHardStop_form:
  assumes "finishHardStop ops u = Inr v"
  shows "isFading v \<and> currentlyPlayingSound v = None \<and> currentlyPlayingNote v = - 1
       \<and> renderingFade v = renderingFade u \<and> adsr v = reset ops (adsr u)"
  using assms
  by (auto simp: finishHardStop_def clearCurrentNote_def split: sum.splits if_splits)

lemma stopNote_hard_form:
  assumes "\<not> renderingFade v0" and "stopNote ops velocity False v0 = Inr v"
  shows "isFading v \<and> currentlyPlayingSound v = None \<and> currentlyPlayingNote v = - 1
       \<and> \<not> renderingFade v \<and> (\<exists>a. adsr v = reset ops a)"
proof -
  from assms obtain v1 fb where
    "finishHardStop ops (v1\<lparr> fadeBuffer := fb, renderingFade := False \<rparr>) = Inr v"
    by (auto simp: stopNote_hard_unfold split: sum.splits)
  from finishHardStop_form [OF this] show ?thesis by auto
qed

lemma renderNextBlock_no_sound:
  "\<not> isFading v \<Longrightarrow> currentlyPlayingSound v = None \<Longrightarrow>
     renderNextBlock ops v out s n = Inr (v, out)"
  by (simp add: renderNextBlock.simps)

lemma stopNote_hard_result:
  assumes "\<not> renderingFade v"
    and "fadeBuffer v \<noteq> []"
    and "\<forall>ch\<in>set (fadeBuffer v). bufferSize v \<le> int (length ch)"
    and "0 \<le> bufferSize v" and "bufferSize v < 2 ^ 31" and "0 \<le> pitchRatio v"
    and "renderNextBlock ops (v\<lparr> fadeBuffer := clear (fadeBuffer v), renderingFade := True \<rparr>)
           (clear (fadeBuffer v)) 0 (bufferSize v) = Inr (v1, block)"
    and "e = (if pitchRatio v < 1 then \<lfloor>real_of_int (bufferSize v) * pitchRatio v\<rfloor>
              else bufferSize v)"
  shows "\<exists>fb3. stopNote ops velocity False v
                 = Inr ((clearCurrentNote (v1\<lparr> fadeBuffer := fb3, renderingFade := False,
                                               isFading := True \<rparr>))
                          \<lparr> adsr := reset ops (adsr v1) \<rparr>)
        \<and> map length fb3 = map length (fadeBuffer v)
        \<and> (\<forall>c<length (fadeBuffer v). \<forall>k<length (fadeBuffer v ! c).
              fb3 ! c ! k = fadedSample block (bufferSize v) e (startingGain v1) c k)"
proof -
  let ?v0 = "v\<lparr> fadeBuffer := clear (fadeBuffer v), renderingFade := True \<rparr>"
  let ?v2 = "v1\<lparr> fadeBuffer := block, renderingFade := False \<rparr>"
  have st: "stopNote ops velocity False v = finishHardStop ops ?v2"
    using assms(1,7) by (simp add: stopNote_hard_unfold)
  have "renderingFade ?v0" by simp
  from renderNextBlock_nested [OF this assms(7)] obtain p a g where
    v1: "v1 = ?v0\<lparr> sourceSamplePosition := p, adsr := a, startingGain := g, isFading := False \<rparr>"
    by blast
  have sh: "map length block = map length (fadeBuffer v)"
    using renderNextBlock_shape [OF assms(7)] by (simp add: clear_shape)
  have f1: "fadeBuffer ?v2 \<noteq> []"
    using sh assms(2) by auto
  have f2: "\<forall>n\<in>set (map length (fadeBuffer ?v2)). bufferSize ?v2 \<le> int n"
    using assms(3) sh v1 by simp
  have f3: "0 \<le> bufferSize ?v2" "bufferSize ?v2 < 2 ^ 31" "0 \<le> pitchRatio ?v2"
    using assms(4,5,6) v1 by simp_all
  have f4: "e = (if pitchRatio ?v2 < 1 then \<lfloor>real_of_int (bufferSize ?v2) * pitchRatio ?v2\<rfloor>
              else bufferSize ?v2)"
    using assms(8) v1 by simp
  from finishHardStop_result [OF f1 f2 f3 f4, of ops] obtain fb3 where
    r: "finishHardStop ops ?v2
          = Inr ((clearCurrentNote (?v2\<lparr> fadeBuffer := fb3, isFading := True \<rparr>))
                   \<lparr> adsr := reset ops (adsr ?v2) \<rparr>)"
    and s3: "map length fb3 = map length (fadeBuffer ?v2)"
    and v3: "\<forall>c<length (fadeBuffer ?v2). \<forall>k<length (fadeBuffer ?v2 ! c).
              fb3 ! c ! k = fadedSample (fadeBuffer ?v2) (bufferSize ?v2) e (startingGain ?v2) c k"
    by blast
  have len: "length block = length (fadeBuffer v)" using sh by (rule map_eq_imp_length_eq)
  have "stopNote ops velocity False v
          = Inr ((clearCurrentNote (v1\<lparr> fadeBuffer := fb3, renderingFade := False,
                                        isFading := True \<rparr>))
                   \<lparr> adsr := reset ops (adsr v1) \<rparr>)"
    unfolding st r
    by (intro arg_cong [where f = Inr] SamplerVoice.equality) (simp_all add: clearCurrentNote_def)
  moreover have "map length fb3 = map length (fadeBuffer v)"
    using s3 sh by simp
  moreover have "\<forall>c<length (fadeBuffer v). \<forall>k<length (fadeBuffer v ! c).
              fb3 ! c ! k = fadedSample block (bufferSize v) e (startingGain v1) c k"
  proof (intro allI impI)
    fix c k assume c: "c < length (fadeBuffer v)" and k: "k < length (fadeBuffer v ! c)"
    have "length (block ! c) = length (fadeBuffer v ! c)"
      using shape_nth [OF sh, of c] c len by simp
    with v3 c k len have "fb3 ! c ! k
        = fadedSample (fadeBuffer ?v2) (bufferSize ?v2) e (startingGain ?v2) c k" by simp
    then show "fb3 ! c ! k = fadedSample block (bufferSize v) e (startingGain v1) c k"
      using v1 by simp
  qed
  ultimately show ?thesis by blast
qed

lemma nested_fade_render:
  assumes "isFading v" and "0 \<le> bufferSize v"
    and "\<forall>ch\<in>set (fadeBuffer v). bufferSize v \<le> int (length ch)"
  shows "renderNextBlock ops (v\<lparr> fadeBuffer := clear (fadeBuffer v), renderingFade := True \<rparr>)
           (clear (fadeBuffer v)) 0 (bufferSize v)
         = Inr (v\<lparr> fadeBuffer := clear (fadeBuffer v), renderingFade := True, isFading := False \<rparr>,
                clear (fadeBuffer v))"
proof -
  let ?z = "clear (fadeBuffer v)"
  have lz: "length ?z = length (fadeBuffer v)" by (simp add: clear_def)
  have big: "c < length ?z \<Longrightarrow> bufferSize v \<le> int (length (?z ! c))" for c
    using assms(3) by (simp add: clear_def)
  then have "\<forall>c\<in>set [0..<length ?z]. c < length ?z \<and> (c < length ?z \<longrightarrow>
            bufferSize v \<le> int (length (?z ! c)) \<and> bufferSize v \<le> int (length (?z ! c)))"
    by simp
  from emitFade_ok [OF assms(2) this] obtain out' where
    e: "emitFade ?z (bufferSize v) [0..<length ?z] ?z = Inr out'" by blast
  from emitFade_Inr [OF e]
  have sh: "map length out' = map length ?z"
    and val: "\<forall>c<length ?z. \<forall>k<length (?z ! c). out' ! c ! k = ?z ! c ! k"
    by simp_all
  have "out' = ?z"
  proof (rule buffer_eqI [OF sh])
    fix c k assume c: "c < length out'" and k: "k < length (out' ! c)"
    have "c < length ?z" using c map_eq_imp_length_eq [OF sh] by simp
    moreover have "k < length (?z ! c)" using shape_nth [OF sh c] k by simp
    ultimately show "out' ! c ! k = ?z ! c ! k" using val by blast
  qed
  with e assms(1) show ?thesis
    by (simp add: renderNextBlock.simps)
qed

subsection \<open>The example objects\<close>

lemma playingVoice_started: "hostStartVoice gateEnvelope 60 1 rampSound idleVoice = playingVoice"
  by (simp add: hostStartVoice_def startNote_def playingVoice_def idleVoice_def rampSound_def
      gateEnvelope_def)

lemma slowVoice_started: "hostStartVoice gateEnvelope 48 1 rampSound idleVoice = slowVoice"
  by (simp add: hostStartVoice_def startNote_def playingVoice_def idleVoice_def rampSound_def
      gateEnvelope_def slowVoice_def powr_minus)

lemma octaveVoice_started: "hostStartVoice gateEnvelope 72 1 rampSound idleVoice = octaveVoice"
  by (simp add: hostStartVoice_def startNote_def playingVoice_def idleVoice_def rampSound_def
      gateEnvelope_def octaveVoice_def)

lemma highVoice_started: "hostStartVoice gateEnvelope 84 1 rampSound idleVoice = highVoice"
  by (simp add: hostStartVoice_def startNote_def playingVoice_def idleVoice_def rampSound_def
      gateEnvelope_def highVoice_def)

lemma fadingVoice_stopped: "stopNote gateEnvelope 0 False playingVoice = Inr fadingVoice"
  by code_simp

lemma restartedVoice_started:
  "hostStartVoice gateEnvelope 60 1 rampSound fadingVoice = restartedVoice"
  by (simp add: hostStartVoice_def startNote_def restartedVoice_def fadingVoice_def
      playingVoice_def idleVoice_def rampSound_def gateEnvelope_def)

lemma envelopeAt_gate: "envelopeAt gateEnvelope a j = a"
proof -
  have "envelopeState gateEnvelope a j = a"
    by (induction j) (simp_all add: envelopeState_def gateEnvelope_def)
  then show ?thesis by (simp add: envelopeAt_def gateEnvelope_def)
qed

section \<open>The claims\<close>

text \<open>
  C1. In the playback branch (\<open>isFading\<close> clear, a sound attached), with a read
  position and a pitch ratio that are not negative, take any frame \<open>j\<close> of the block
  that the loop reaches: \<open>j < numSamples\<close> and the position has not passed the length
  of the sound after any earlier frame. With \<open>p\<close> the position of the frame,
  \<open>pos = \<lfloor>p\<rfloor>\<close>, \<open>alpha = p - pos\<close> and \<open>env\<close> the envelope sample number \<open>j\<close>, the
  voice reads \<open>inL[pos]\<close> and \<open>inL[pos + 1]\<close> inside the channel, forms
  \<open>l = (inL[pos] * (1 - alpha) + inL[pos + 1] * alpha) * (lgain * env)\<close> and \<open>r\<close> in the
  same way from the right channel of the sound, or from the left one when the sound
  is mono, with \<open>rgain\<close>. A stereo output receives \<open>l\<close> added to channel 0 and \<open>r\<close> added
  to channel 1 at frame \<open>startSample + j\<close>; a mono output receives \<open>(l + r) / 2\<close> added to
  its channel.
\<close>

theorem renderNextBlock_playback_frames:
  assumes "\<not> isFading v" and "currentlyPlayingSound v = Some sound" and "data sound = Some d"
    and "renderNextBlock ops v output startSample numSamples = Inr (v', output')"
    and "0 \<le> sourceSamplePosition v" and "0 \<le> pitchRatio v"
    and "int j < numSamples"
    and "\<forall>k<j. sourceSamplePosition v + real (Suc k) * pitchRatio v \<le> real_of_int (lengthS sound)"
    and "inL = d ! 0" and "inR = (if length d > 1 then Some (d ! 1) else None)"
    and "p = sourceSamplePosition v + real j * pitchRatio v"
    and "env = envelopeAt ops (adsr v) j"
    and "l = (inL ! nat \<lfloor>p\<rfloor> * (1 - (p - real_of_int \<lfloor>p\<rfloor>))
               + inL ! nat (\<lfloor>p\<rfloor> + 1) * (p - real_of_int \<lfloor>p\<rfloor>)) * (lgain v * env)"
    and "r = (case inR of
                Some ch \<Rightarrow> ch ! nat \<lfloor>p\<rfloor> * (1 - (p - real_of_int \<lfloor>p\<rfloor>))
                             + ch ! nat (\<lfloor>p\<rfloor> + 1) * (p - real_of_int \<lfloor>p\<rfloor>)
              | None \<Rightarrow> inL ! nat \<lfloor>p\<rfloor> * (1 - (p - real_of_int \<lfloor>p\<rfloor>))
                             + inL ! nat (\<lfloor>p\<rfloor> + 1) * (p - real_of_int \<lfloor>p\<rfloor>)) * (rgain v * env)"
    and "f = nat (startSample + int j)"
  shows "0 \<le> \<lfloor>p\<rfloor> \<and> \<lfloor>p\<rfloor> + 1 < int (length inL)
       \<and> (\<forall>ch. inR = Some ch \<longrightarrow> \<lfloor>p\<rfloor> + 1 < int (length ch))
       \<and> 0 \<le> startSample \<and> f < length (output ! 0)
       \<and> (if length output > 1
           then output' ! 0 ! f = output ! 0 ! f + l \<and> output' ! 1 ! f = output ! 1 ! f + r
                \<and> f < length (output ! 1)
           else output' ! 0 ! f = output ! 0 ! f + (l + r) / 2)"
proof -
  note loop = playback_branch_loop [OF assms(1-4)]
  have j: "j < nat numSamples" using assms(7) by simp
  from loop have lp: "renderLoop ops sound inL inR
           (length output > 1) True v output startSample (nat numSamples) = Inr (v', output')"
    using assms(9,10) by simp
  note val = renderLoop_value [OF lp assms(5,6) j assms(8)]
  note rng = renderLoop_ranges [OF lp assms(5,6) j assms(8)]
  have p0: "0 \<le> p" using assms(5,6,11) by simp
  have fl: "frameLeft ops inL v j = l"
    by (simp add: frameLeft_def floorInterpolate_def assms(11,12,13))
  have fr: "frameRight ops inL inR v j = r"
    by (cases inR) (simp_all add: frameRight_def floorInterpolate_def assms(11,12,14))
  from rng have "f < length (output ! 0)" "length output > 1 \<Longrightarrow> f < length (output ! 1)"
    using assms(15) by auto
  with val rng p0 show ?thesis
    unfolding frameMix_def fl fr assms(11) [symmetric] assms(15) [symmetric]
    by auto
qed


theorem renderNextBlock_playback_frames_witness:
  "\<exists>v' output'.
     renderNextBlock gateEnvelope playingVoice [[10, 10, 10, 10], [20, 20, 20, 20]] 0 4
       = Inr (v', output')
     \<and> output' ! 0 ! 2 = 10 + 3 \<and> output' ! 1 ! 2 = 20 + 3"
proof -
  let ?d = "[[1, 2, 3, 4, 5, 6, 7, 8, 0, 0, 0, 0 :: real]]"
  let ?out = "[[10, 10, 10, 10], [20, 20, 20, 20 :: real]]"
  let ?v' = "playingVoice\<lparr> sourceSamplePosition := 4, startingGain := 1 \<rparr>"
  let ?out' = "[[11, 12, 13, 14], [21, 22, 23, 24 :: real]]"
  have h1: "\<not> isFading playingVoice"
    and h2: "currentlyPlayingSound playingVoice = Some rampSound"
    and h3: "data rampSound = Some ?d"
    and h5: "0 \<le> sourceSamplePosition playingVoice"
    and h6: "0 \<le> pitchRatio playingVoice"
    by (simp_all add: playingVoice_def idleVoice_def rampSound_def)
  have h4: "renderNextBlock gateEnvelope playingVoice ?out 0 4 = Inr (?v', ?out')"
    by code_simp
  have h7: "int 2 < 4" by simp
  have h8: "\<forall>k<2. sourceSamplePosition playingVoice + real (Suc k) * pitchRatio playingVoice
              \<le> real_of_int (lengthS rampSound)"
    by (simp add: playingVoice_def idleVoice_def rampSound_def less_Suc_eq numeral_2_eq_2)
  have pos: "sourceSamplePosition playingVoice + real 2 * pitchRatio playingVoice = 2"
    and g: "lgain playingVoice = 1" "rgain playingVoice = 1" "adsr playingVoice = 1"
    by (simp_all add: playingVoice_def idleVoice_def)
  from renderNextBlock_playback_frames [OF h1 h2 h3 h4 h5 h6 h7 h8 refl refl refl refl refl refl refl]
  have "?out' ! 0 ! 2 = 10 + 3 \<and> ?out' ! 1 ! 2 = 20 + 3"
    unfolding pos g envelopeAt_gate by simp
  with h4 show ?thesis by blast
qed

text \<open>
  C2. The claim is that no call of \<^verbatim>\<open>renderNextBlock (output, startSample,
  numSamples)\<close> writes a sample outside \<open>[startSample, startSample + numSamples)\<close>.
  The fade branch does: it copies to \<open>[0, numSamples)\<close> whatever \<open>startSample\<close> is.
  Here the voice that started the root note and was stopped hard renders the window
  \<open>[2, 4)\<close> of a six-frame mono output that holds 9 everywhere: frames 0 and 1 are
  overwritten with the fade, frames 2 and 3 are left alone.
\<close>

theorem renderNextBlock_fade_writes_before_startSample:
  "stopNote gateEnvelope 0 False (hostStartVoice gateEnvelope 60 1 rampSound idleVoice) = Inr fadingVoice
   \<and> renderNextBlock gateEnvelope fadingVoice [[9, 9, 9, 9, 9, 9]] 2 2
       = Inr (fadingVoice\<lparr> isFading := False \<rparr>, [[1, 3 / 2, 9, 9, 9, 9]])"
proof -
  have a: "stopNote gateEnvelope 0 False (hostStartVoice gateEnvelope 60 1 rampSound idleVoice)
             = Inr fadingVoice"
    unfolding playingVoice_started by (rule fadingVoice_stopped)
  have b: "renderNextBlock gateEnvelope fadingVoice [[9, 9, 9, 9, 9, 9]] 2 2
             = Inr (fadingVoice\<lparr> isFading := False \<rparr>, [[1, 3 / 2, 9, 9, 9, 9]])"
    by code_simp
  from a b show ?thesis by (rule conjI)
qed

text \<open>
  C3. The claim is that a second hard stop while \<open>isFading\<close> is set changes nothing,
  the contents of the fade buffer included. It does change them: \<^verbatim>\<open>stopNote\<close> tests
  only \<open>renderingFade\<close>, clears the fade buffer and renders into it again, and that
  render takes the fade branch, which copies the cleared buffer onto itself. The voice
  that was playing the root note holds the fade \<open>1, 3/2, 3/2, 1\<close> after the first hard
  stop and zeros after the second.
\<close>

theorem second_hard_stop_clears_fade:
  "stopNote gateEnvelope 0 False playingVoice = Inr fadingVoice
   \<and> isFading fadingVoice \<and> \<not> renderingFade fadingVoice
   \<and> fadeBuffer fadingVoice = [[1, 3 / 2, 3 / 2, 1], [1, 3 / 2, 3 / 2, 1]]
   \<and> stopNote gateEnvelope 0 False fadingVoice
       = Inr (fadingVoice\<lparr> fadeBuffer := [[0, 0, 0, 0], [0, 0, 0, 0]] \<rparr>)"
proof -
  have a: "isFading fadingVoice \<and> \<not> renderingFade fadingVoice
           \<and> fadeBuffer fadingVoice = [[1, 3 / 2, 3 / 2, 1], [1, 3 / 2, 3 / 2, 1]]"
    by (simp add: fadingVoice_def playingVoice_def idleVoice_def)
  have b: "stopNote gateEnvelope 0 False fadingVoice
       = Inr (fadingVoice\<lparr> fadeBuffer := [[0, 0, 0, 0], [0, 0, 0, 0]] \<rparr>)"
    by code_simp
  from fadingVoice_stopped a b show ?thesis by blast
qed

text \<open>
  C3, amended. On a voice whose fade buffer has \<open>bufferSize\<close> frames per channel and
  whose pitch ratio is not negative: a hard stop while \<open>renderingFade\<close> is set returns
  the voice unchanged. A hard stop while \<open>isFading\<close> is set and \<open>renderingFade\<close> is
  clear keeps \<open>isFading\<close>, \<open>startingGain\<close> and every other field but four: the note
  and the sound are cleared, the envelope is reset, and the fade buffer is all zeros.
  When the voice is in the state a first hard stop left and resetting the envelope
  twice is the same as resetting it once, the note, the sound and the envelope are
  already so, and the second hard stop changes the fade buffer alone.
\<close>

theorem second_hard_stop_effect:
  assumes "fadeBuffer v \<noteq> []"
    and "\<forall>ch\<in>set (fadeBuffer v). bufferSize v \<le> int (length ch)"
    and "0 \<le> bufferSize v" and "bufferSize v < 2 ^ 31" and "0 \<le> pitchRatio v"
  shows "(renderingFade v \<longrightarrow> stopNote ops velocity False v = Inr v)
       \<and> (\<not> renderingFade v \<and> isFading v \<longrightarrow>
            stopNote ops velocity False v
              = Inr ((clearCurrentNote (v\<lparr> fadeBuffer := clear (fadeBuffer v) \<rparr>))
                       \<lparr> adsr := reset ops (adsr v) \<rparr>))
       \<and> ((\<exists>v0 velocity0. \<not> renderingFade v0 \<and> stopNote ops velocity0 False v0 = Inr v)
            \<and> (\<forall>a. reset ops (reset ops a) = reset ops a) \<longrightarrow>
            stopNote ops velocity False v = Inr (v\<lparr> fadeBuffer := clear (fadeBuffer v) \<rparr>))"
proof -
  have second: "stopNote ops velocity False v
              = Inr ((clearCurrentNote (v\<lparr> fadeBuffer := clear (fadeBuffer v) \<rparr>))
                       \<lparr> adsr := reset ops (adsr v) \<rparr>)"
    if nr: "\<not> renderingFade v" and f: "isFading v"
  proof -
    let ?z = "clear (fadeBuffer v)"
    let ?v1 = "v\<lparr> fadeBuffer := ?z, renderingFade := True, isFading := False \<rparr>"
    note nested = nested_fade_render [OF f assms(3,2), of ops]
    from stopNote_hard_result [OF nr assms(1-5) nested refl, of velocity] obtain fb3 where
      st: "stopNote ops velocity False v
                 = Inr ((clearCurrentNote (?v1\<lparr> fadeBuffer := fb3, renderingFade := False,
                                               isFading := True \<rparr>))
                          \<lparr> adsr := reset ops (adsr ?v1) \<rparr>)"
      and sh: "map length fb3 = map length (fadeBuffer v)"
      and val: "\<forall>c<length (fadeBuffer v). \<forall>k<length (fadeBuffer v ! c).
              fb3 ! c ! k = fadedSample ?z (bufferSize v)
                   (if pitchRatio v < 1 then \<lfloor>real_of_int (bufferSize v) * pitchRatio v\<rfloor>
                    else bufferSize v) (startingGain ?v1) c k"
      by blast
    have len: "length fb3 = length (fadeBuffer v)" using sh by (rule map_eq_imp_length_eq)
    have "fb3 = ?z"
    proof (rule buffer_eqI)
      show "map length fb3 = map length ?z" using sh by (simp add: clear_shape)
      fix c k assume c: "c < length fb3" and k: "k < length (fb3 ! c)"
      have c': "c < length (fadeBuffer v)" using c len by simp
      have k': "k < length (fadeBuffer v ! c)" using shape_nth [OF sh c] k by simp
      from val c' k' have "fb3 ! c ! k = 0"
        by (simp add: fadedSample_def clear_nth)
      then show "fb3 ! c ! k = ?z ! c ! k" using c' k' by (simp add: clear_nth)
    qed
    then show ?thesis
      unfolding st using nr f
      by (intro arg_cong [where f = Inr] SamplerVoice.equality) (simp_all add: clearCurrentNote_def)
  qed
  have third: "stopNote ops velocity False v = Inr (v\<lparr> fadeBuffer := clear (fadeBuffer v) \<rparr>)"
    if first: "\<exists>v0 velocity0. \<not> renderingFade v0 \<and> stopNote ops velocity0 False v0 = Inr v"
      and idem: "\<forall>a. reset ops (reset ops a) = reset ops a"
  proof -
    from first obtain v0 velocity0 where
      "\<not> renderingFade v0" "stopNote ops velocity0 False v0 = Inr v" by blast
    from stopNote_hard_form [OF this] obtain a where
      fm: "isFading v" "currentlyPlayingSound v = None" "currentlyPlayingNote v = - 1"
        "\<not> renderingFade v" "adsr v = reset ops a"
      by blast
    have "reset ops (adsr v) = adsr v" using fm(5) idem by simp
    with second [OF fm(4,1)] fm(2,3) show ?thesis
      by (simp add: clearCurrentNote_def)
  qed
  from second third show ?thesis by (simp add: stopNote_reentrant)
qed


theorem second_hard_stop_effect_witness:
  "stopNote gateEnvelope 0 False fadingVoice
     = Inr (fadingVoice\<lparr> fadeBuffer := clear (fadeBuffer fadingVoice) \<rparr>)
   \<and> isFading fadingVoice \<and> \<not> renderingFade fadingVoice
   \<and> stopNote gateEnvelope 0 False (fadingVoice\<lparr> renderingFade := True \<rparr>)
       = Inr (fadingVoice\<lparr> renderingFade := True \<rparr>)"
proof -
  have fb: "fadeBuffer fadingVoice = [[1, 3 / 2, 3 / 2, 1], [1, 3 / 2, 3 / 2, 1]]"
    and bs: "bufferSize fadingVoice = 4" and pr: "pitchRatio fadingVoice = 1"
    and fl: "isFading fadingVoice" "\<not> renderingFade fadingVoice"
    by (simp_all add: fadingVoice_def playingVoice_def idleVoice_def)
  have h1: "fadeBuffer fadingVoice \<noteq> []"
    and h2: "\<forall>ch\<in>set (fadeBuffer fadingVoice). bufferSize fadingVoice \<le> int (length ch)"
    and h3: "0 \<le> bufferSize fadingVoice" and h4: "bufferSize fadingVoice < 2 ^ 31"
    and h5: "0 \<le> pitchRatio fadingVoice"
    unfolding fb bs pr by simp_all
  have first: "\<exists>v0 velocity0. \<not> renderingFade v0
                 \<and> stopNote gateEnvelope velocity0 False v0 = Inr fadingVoice"
    using fadingVoice_stopped by (intro exI [of _ playingVoice] exI [of _ 0])
      (simp add: playingVoice_def idleVoice_def)
  have idem: "\<forall>a. reset gateEnvelope (reset gateEnvelope a) = reset gateEnvelope a"
    by (simp add: gateEnvelope_def)
  let ?w = "fadingVoice\<lparr> renderingFade := True \<rparr>"
  have g1: "fadeBuffer ?w \<noteq> []"
    and g2: "\<forall>ch\<in>set (fadeBuffer ?w). bufferSize ?w \<le> int (length ch)"
    and g3: "0 \<le> bufferSize ?w" and g4: "bufferSize ?w < 2 ^ 31"
    and g5: "0 \<le> pitchRatio ?w"
    using h1 h2 h3 h4 h5 by simp_all
  from second_hard_stop_effect [OF h1 h2 h3 h4 h5, of gateEnvelope 0] first idem
  have a: "stopNote gateEnvelope 0 False fadingVoice
     = Inr (fadingVoice\<lparr> fadeBuffer := clear (fadeBuffer fadingVoice) \<rparr>)"
    by blast
  from second_hard_stop_effect [OF g1 g2 g3 g4 g5, of gateEnvelope 0]
  have b: "stopNote gateEnvelope 0 False ?w = Inr ?w"
    by simp
  from a b fl show ?thesis by blast
qed

text \<open>
  C4. The claim is that the four frames after \<open>length\<close> are zero in every sound, also
  when \<open>length\<close> was cut down to \<open>maxSampleLengthSeconds * sourceSampleRate\<close>. They are
  not: the constructor reads \<open>length + 4\<close> frames from the source, so a truncated sound
  holds the next source frames there. The source of ten frames of 1, capped at five
  seconds at rate 1, gives \<open>length = 5\<close> and nine frames of 1.
\<close>

theorem SamplerSound_truncated_padding_not_zero:
  "\<exists>s d. SamplerSound_new gateParams ''dc'' dcSource {60} 60 0 0 5 = Inr s
         \<and> data s = Some d \<and> lengthS s = 5 \<and> lengthS s < lengthInSamples dcSource
         \<and> d = [[1, 1, 1, 1, 1, 1, 1, 1, 1]] \<and> d ! 0 ! 5 = 1"
proof -
  have "SamplerSound_new gateParams ''dc'' dcSource {60} 60 0 0 5
          = Inr \<lparr> name = ''dc'', sourceSampleRate = 1, midiNotes = {60}, midiRootNote = 60,
                  lengthS = 5, data = Some [[1, 1, 1, 1, 1, 1, 1, 1, 1]], params = gateParams \<rparr>"
    by code_simp
  then show ?thesis by (simp add: dcSource_def)
qed

text \<open>
  C4, amended. For a source with a positive sample rate, a positive length below
  \<open>2^31 - 4\<close> and a cap \<open>maxSampleLengthSeconds * sampleRate\<close> in \<open>[0, 2^31)\<close>, the
  constructor returns a sound with \<open>length = min (lengthInSamples, \<lfloor>cap\<rfloor>)\<close> whose
  buffer has at most 2 channels of exactly \<open>length + 4\<close> frames. Each frame \<open>k\<close> in
  \<open>[length, length + 4)\<close> holds frame \<open>k\<close> of the source, which is zero from the end of
  the source on; so all four are zero when the sound was not truncated.
\<close>

theorem SamplerSound_new_padding:
  assumes "sampleRate source > 0"
    and "0 < lengthInSamples source" and "lengthInSamples source < 2 ^ 31 - 4"
    and "0 \<le> maxSampleLengthSeconds * sampleRate source"
    and "maxSampleLengthSeconds * sampleRate source < 2 ^ 31"
  shows "\<exists>s d. SamplerSound_new defaultParams soundName source notes rootNote attackTimeSecs
                  releaseTimeSecs maxSampleLengthSeconds = Inr s
         \<and> data s = Some d
         \<and> lengthS s = min (lengthInSamples source) \<lfloor>maxSampleLengthSeconds * sampleRate source\<rfloor>
         \<and> 0 \<le> lengthS s \<and> length d \<le> 2
         \<and> (\<forall>c<length d. length (d ! c) = nat (lengthS s + 4)
               \<and> (\<forall>k. lengthS s \<le> k \<and> k < lengthS s + 4
                      \<longrightarrow> d ! c ! nat k = sourceFrame source c k
                          \<and> (lengthInSamples source \<le> k \<longrightarrow> d ! c ! nat k = 0)))
         \<and> (lengthS s = lengthInSamples source
               \<longrightarrow> (\<forall>c<length d. \<forall>k. lengthS s \<le> k \<and> k < lengthS s + 4 \<longrightarrow> d ! c ! nat k = 0))"
proof -
  define cap where "cap = \<lfloor>maxSampleLengthSeconds * sampleRate source\<rfloor>"
  define len where "len = min (lengthInSamples source) cap"
  define nc where "nc = nat (min 2 (int_of_int64 (int (numChannels source))))"
  define dest where "dest = AudioBuffer_new nc (nat (len + 4))"
  have cap: "int_of_double (maxSampleLengthSeconds * sampleRate source) = Inr cap"
    unfolding cap_def using assms(4,5) by (rule int_of_double_floor)
  have cap0: "0 \<le> cap" unfolding cap_def using assms(4) by simp
  have l64: "int_of_int64 (lengthInSamples source) = lengthInSamples source"
    using assms(2,3) by (simp add: int_of_int64_id)
  have len0: "0 \<le> len" and len1: "len + 4 < 2 ^ 31"
    unfolding len_def using assms(2,3) cap0 by simp_all
  have dl: "length dest = nc" and dch: "\<forall>c<nc. dest ! c = replicate (nat (len + 4)) 0"
    unfolding dest_def AudioBuffer_new_def by simp_all
  have "\<forall>ch\<in>set dest. len + 4 \<le> int (length ch)"
    unfolding dest_def AudioBuffer_new_def using len0 by simp
  with read_Inr [of "len + 4" dest source] len0 obtain d where
    rd: "read source dest 0 (len + 4) 0 = Inr d" and d1: "length d = length dest"
    and d2: "\<forall>c<length dest. length (d ! c) = length (dest ! c)
             \<and> (\<forall>i<length (dest ! c). d ! c ! i
                   = (if int i < len + 4 then sourceFrame source c (int i) else dest ! c ! i))"
    by auto
  let ?s = "\<lparr> name = soundName, sourceSampleRate = sampleRate source, midiNotes = notes,
              midiRootNote = rootNote, lengthS = len, data = Some d,
              params = defaultParams\<lparr> attack := attackTimeSecs, release := releaseTimeSecs \<rparr> \<rparr>"
  have new: "SamplerSound_new defaultParams soundName source notes rootNote attackTimeSecs
                  releaseTimeSecs maxSampleLengthSeconds = Inr ?s"
    unfolding SamplerSound_new_def
    using assms(1,2) cap l64 len0 len1 rd
    by (simp add: Let_def len_def [symmetric] nc_def [symmetric] dest_def [symmetric])
  have nc2: "length d \<le> 2" unfolding d1 dl nc_def by simp
  have pad: "\<forall>c<length d. length (d ! c) = nat (len + 4)
               \<and> (\<forall>k. len \<le> k \<and> k < len + 4
                      \<longrightarrow> d ! c ! nat k = sourceFrame source c k
                          \<and> (lengthInSamples source \<le> k \<longrightarrow> d ! c ! nat k = 0))"
  proof (intro allI impI conjI)
    fix c assume c: "c < length d"
    then have cn: "c < nc" using d1 dl by simp
    with dch have dc: "length (dest ! c) = nat (len + 4)" by simp
    from d2 c d1 dc show "length (d ! c) = nat (len + 4)" by simp
    fix k assume k: "len \<le> k \<and> k < len + 4"
    then have "nat k < length (dest ! c)" using dc len0 by simp
    with d2 c d1 have "d ! c ! nat k
        = (if int (nat k) < len + 4 then sourceFrame source c (int (nat k)) else dest ! c ! nat k)"
      by simp
    with k len0 show e: "d ! c ! nat k = sourceFrame source c k" by simp
    assume "lengthInSamples source \<le> k"
    then show "d ! c ! nat k = 0" unfolding e by (simp add: sourceFrame_def)
  qed
  have full: "len = lengthInSamples source
               \<longrightarrow> (\<forall>c<length d. \<forall>k. len \<le> k \<and> k < len + 4 \<longrightarrow> d ! c ! nat k = 0)"
  proof (intro allI impI)
    fix c k assume "len = lengthInSamples source" and "c < length d"
      and "len \<le> k \<and> k < len + 4"
    with pad show "d ! c ! nat k = 0" by blast
  qed
  have ls: "lengthS ?s = len" and ds: "data ?s = Some d"
    by simp_all
  have lm: "min (lengthInSamples source) \<lfloor>maxSampleLengthSeconds * sampleRate source\<rfloor> = len"
    by (simp add: len_def cap_def)
  show ?thesis
    apply (rule exI [of _ ?s], rule exI [of _ d])
    unfolding ls ds lm
    using new len0 nc2 pad full by blast
qed


theorem SamplerSound_new_padding_witness:
  "\<exists>s d. SamplerSound_new gateParams ''dc'' dcSource {60} 60 0 0 20 = Inr s
         \<and> data s = Some d \<and> lengthS s = 10 \<and> length d \<le> 2"
proof -
  have h1: "sampleRate dcSource > 0"
    and h2: "0 < lengthInSamples dcSource" and h3: "lengthInSamples dcSource < 2 ^ 31 - 4"
    and h4: "0 \<le> 20 * sampleRate dcSource" and h5: "20 * sampleRate dcSource < 2 ^ 31"
    by (simp_all add: dcSource_def)
  have m: "min (lengthInSamples dcSource) \<lfloor>20 * sampleRate dcSource\<rfloor> = 10"
    by (simp add: dcSource_def)
  from SamplerSound_new_padding [OF h1 h2 h3 h4 h5, of gateParams "''dc''" "{60}" 60 0 0]
  show ?thesis unfolding m by blast
qed

text \<open>
  C5. The claim is that every read of the sample data stays within the \<open>length + 4\<close>
  allocated frames. It fails on the auto-stop path. The sound has 8 frames and 12
  allocated ones; two octaves up the pitch ratio is 4. Two frames render (positions 0
  and 4) and leave the position at 8, which is not beyond the length. The third frame
  reads at 8 and moves the position to 12, the loop stops the note, and the hard stop
  renders the fade block from position 12: it reads indices 12 and 13 of 12 frames.
\<close>

theorem renderNextBlock_autostop_reads_past_padding:
  "hostStartVoice gateEnvelope 84 1 rampSound idleVoice = highVoice
   \<and> renderNextBlock gateEnvelope highVoice [[0, 0, 0, 0]] 0 2
       = Inr (highVoice\<lparr> sourceSamplePosition := 8, startingGain := 1 \<rparr>, [[1, 5, 0, 0]])
   \<and> data rampSound = Some [[1, 2, 3, 4, 5, 6, 7, 8, 0, 0, 0, 0]]
   \<and> readAt [1, 2, 3, 4, 5, 6, 7, 8, 0, 0, 0, 0] 12 = Inl ReadOutOfRange
   \<and> renderNextBlock gateEnvelope highVoice [[0, 0, 0, 0]] 0 3 = Inl ReadOutOfRange"
proof -
  have b: "renderNextBlock gateEnvelope highVoice [[0, 0, 0, 0]] 0 2
       = Inr (highVoice\<lparr> sourceSamplePosition := 8, startingGain := 1 \<rparr>, [[1, 5, 0, 0]])"
    by code_simp
  have c: "data rampSound = Some [[1, 2, 3, 4, 5, 6, 7, 8, 0, 0, 0, 0]]"
    by (simp add: rampSound_def)
  have d: "readAt [1, 2, 3, 4, 5, 6, 7, 8, 0, 0, 0, 0] 12 = Inl ReadOutOfRange"
    by (simp add: readAt_def)
  have e: "renderNextBlock gateEnvelope highVoice [[0, 0, 0, 0]] 0 3 = Inl ReadOutOfRange"
    by code_simp
  from highVoice_started b c d e show ?thesis by (intro conjI)
qed

text \<open>
  C6. A hard stop entered with \<open>renderingFade\<close> clear, on a voice whose fade buffer
  has at least one channel and \<open>bufferSize\<close> frames per channel and whose pitch ratio
  is not negative: the voice clears the fade buffer and renders \<open>bufferSize\<close> frames
  into it with \<open>renderingFade\<close> set; let that render return the voice \<open>v1\<close> and the
  block \<open>block\<close>. Then \<^verbatim>\<open>stopNote\<close> returns. With \<open>endSample = bufferSize\<close> if
  \<open>pitchRatio \<ge> 1\<close> and \<open>\<lfloor>bufferSize * pitchRatio\<rfloor>\<close> otherwise, the fade buffer holds
  the block under the linear ramp from \<open>startingGain\<close> to 0 over \<open>[0, endSample)\<close> on
  channels 0 and 1 and zeros on \<open>[endSample, bufferSize)\<close>; \<open>isFading\<close> is set,
  \<open>renderingFade\<close> is clear, the playing note and sound are cleared and the envelope
  is reset.
\<close>

theorem hard_stop_builds_fade:
  assumes "\<not> renderingFade v"
    and "fadeBuffer v \<noteq> []"
    and "\<forall>ch\<in>set (fadeBuffer v). bufferSize v \<le> int (length ch)"
    and "0 \<le> bufferSize v" and "bufferSize v < 2 ^ 31" and "0 \<le> pitchRatio v"
    and "renderNextBlock ops (v\<lparr> fadeBuffer := clear (fadeBuffer v), renderingFade := True \<rparr>)
           (clear (fadeBuffer v)) 0 (bufferSize v) = Inr (v1, block)"
    and "endSample = (if 1 \<le> pitchRatio v then bufferSize v
                      else \<lfloor>real_of_int (bufferSize v) * pitchRatio v\<rfloor>)"
  shows "\<exists>v'. stopNote ops velocity False v = Inr v'
         \<and> 0 \<le> endSample \<and> endSample \<le> bufferSize v
         \<and> map length (fadeBuffer v') = map length (fadeBuffer v)
         \<and> (\<forall>c<length (fadeBuffer v). \<forall>k<length (fadeBuffer v ! c).
               fadeBuffer v' ! c ! k
                 = fadedSample block (bufferSize v) endSample (startingGain v1) c k)
         \<and> isFading v' \<and> \<not> renderingFade v'
         \<and> currentlyPlayingSound v' = None \<and> currentlyPlayingNote v' = - 1
         \<and> adsr v' = reset ops (adsr v1)
         \<and> pitchRatio v' = pitchRatio v \<and> bufferSize v' = bufferSize v
         \<and> sourceSamplePosition v' = sourceSamplePosition v1
         \<and> startingGain v' = startingGain v1"
proof -
  have e: "endSample = (if pitchRatio v < 1 then \<lfloor>real_of_int (bufferSize v) * pitchRatio v\<rfloor>
              else bufferSize v)"
    using assms(8) by auto
  from fadeEndSample_floor [OF assms(4,5,6)] e
  have b: "0 \<le> endSample \<and> endSample \<le> bufferSize v" by simp
  have "renderingFade (v\<lparr> fadeBuffer := clear (fadeBuffer v), renderingFade := True \<rparr>)" by simp
  from renderNextBlock_nested [OF this assms(7)] obtain p a g where
    v1: "v1 = v\<lparr> fadeBuffer := clear (fadeBuffer v), renderingFade := True,
                   sourceSamplePosition := p, adsr := a, startingGain := g, isFading := False \<rparr>"
    by blast
  from stopNote_hard_result [OF assms(1-7) e, of velocity] obtain fb3 where
    st: "stopNote ops velocity False v
                 = Inr ((clearCurrentNote (v1\<lparr> fadeBuffer := fb3, renderingFade := False,
                                               isFading := True \<rparr>))
                          \<lparr> adsr := reset ops (adsr v1) \<rparr>)"
    and sh: "map length fb3 = map length (fadeBuffer v)"
    and val: "\<forall>c<length (fadeBuffer v). \<forall>k<length (fadeBuffer v ! c).
              fb3 ! c ! k = fadedSample block (bufferSize v) endSample (startingGain v1) c k"
    by blast
  let ?v' = "(clearCurrentNote (v1\<lparr> fadeBuffer := fb3, renderingFade := False,
                                               isFading := True \<rparr>))
                          \<lparr> adsr := reset ops (adsr v1) \<rparr>"
  have flds: "fadeBuffer ?v' = fb3" "isFading ?v'" "\<not> renderingFade ?v'"
    "currentlyPlayingSound ?v' = None" "currentlyPlayingNote ?v' = - 1"
    "adsr ?v' = reset ops (adsr v1)" "pitchRatio ?v' = pitchRatio v"
    "bufferSize ?v' = bufferSize v" "sourceSamplePosition ?v' = sourceSamplePosition v1"
    "startingGain ?v' = startingGain v1"
    by (simp_all add: clearCurrentNote_def v1)
  have sh': "map length (fadeBuffer ?v') = map length (fadeBuffer v)"
    unfolding flds(1) by (rule sh)
  have val': "\<forall>c<length (fadeBuffer v). \<forall>k<length (fadeBuffer v ! c).
              fadeBuffer ?v' ! c ! k
                = fadedSample block (bufferSize v) endSample (startingGain v1) c k"
    unfolding flds(1) by (rule val)
  from st b sh' val' flds(2-) show ?thesis
    by (intro exI [of _ ?v']) blast
qed


theorem hard_stop_builds_fade_witness:
  "\<exists>v'. stopNote gateEnvelope 0 False slowVoice = Inr v'
         \<and> isFading v' \<and> currentlyPlayingSound v' = None \<and> adsr v' = 0
         \<and> fadeBuffer v' ! 0 ! 0 = 1 \<and> fadeBuffer v' ! 0 ! 1 = 3 / 4 \<and> fadeBuffer v' ! 0 ! 2 = 0
         \<and> fadeBuffer v' ! 1 ! 1 = 3 / 4 \<and> fadeBuffer v' ! 1 ! 3 = 0"
proof -
  let ?v1 = "slowVoice\<lparr> renderingFade := True, sourceSamplePosition := 2, startingGain := 1 \<rparr>"
  let ?block = "[[1, 3 / 2, 2, 5 / 2], [1, 3 / 2, 2, 5 / 2 :: real]]"
  have fb: "fadeBuffer slowVoice = [[0, 0, 0, 0], [0, 0, 0, 0]]"
    and bs: "bufferSize slowVoice = 4" and pr: "pitchRatio slowVoice = 1 / 2"
    by (simp_all add: slowVoice_def playingVoice_def idleVoice_def)
  have h1: "\<not> renderingFade slowVoice"
    by (simp add: slowVoice_def playingVoice_def idleVoice_def)
  have h2: "fadeBuffer slowVoice \<noteq> []"
    and h3: "\<forall>ch\<in>set (fadeBuffer slowVoice). bufferSize slowVoice \<le> int (length ch)"
    and h4: "0 \<le> bufferSize slowVoice" and h5: "bufferSize slowVoice < 2 ^ 31"
    and h6: "0 \<le> pitchRatio slowVoice"
    unfolding fb bs pr by simp_all
  have h7: "renderNextBlock gateEnvelope
              (slowVoice\<lparr> fadeBuffer := clear (fadeBuffer slowVoice), renderingFade := True \<rparr>)
              (clear (fadeBuffer slowVoice)) 0 (bufferSize slowVoice) = Inr (?v1, ?block)"
    by code_simp
  have h8: "(2::int) = (if 1 \<le> pitchRatio slowVoice then bufferSize slowVoice
                      else \<lfloor>real_of_int (bufferSize slowVoice) * pitchRatio slowVoice\<rfloor>)"
    unfolding bs pr by simp
  from hard_stop_builds_fade [OF h1 h2 h3 h4 h5 h6 h7 h8, of 0] obtain v' where
    st: "stopNote gateEnvelope 0 False slowVoice = Inr v'"
    and val: "\<forall>c<length (fadeBuffer slowVoice). \<forall>k<length (fadeBuffer slowVoice ! c).
               fadeBuffer v' ! c ! k = fadedSample ?block (bufferSize slowVoice) 2 (startingGain ?v1) c k"
    and fl: "isFading v'" "currentlyPlayingSound v' = None"
      "adsr v' = reset gateEnvelope (adsr ?v1)"
    by blast
  from val have "fadeBuffer v' ! 0 ! 0 = 1" "fadeBuffer v' ! 0 ! 1 = 3 / 4" "fadeBuffer v' ! 0 ! 2 = 0"
    "fadeBuffer v' ! 1 ! 1 = 3 / 4" "fadeBuffer v' ! 1 ! 3 = 0"
    unfolding fb bs by (simp_all add: fadedSample_def)
  moreover have "adsr v' = 0" using fl(3) by (simp add: gateEnvelope_def)
  ultimately show ?thesis using st fl(1,2) by blast
qed

text \<open>
  C7. In the playback branch, if the read position passes the length of the sound
  after some frame of the block (frame \<open>k\<close>, say), then the loop stops after the first
  such frame \<open>j\<close>: the output is the output of the loop body run \<open>j + 1\<close> times, the
  voice is what \<^verbatim>\<open>stopNote (0, false)\<close> returns on the state those passes leave, and
  every output frame after \<open>startSample + j\<close> (and before \<open>startSample\<close>) holds what it
  held on entry.
\<close>

theorem renderNextBlock_overrun_stops:
  assumes "\<not> isFading v" and "currentlyPlayingSound v = Some sound" and "data sound = Some d"
    and "renderNextBlock ops v output startSample numSamples = Inr (v', output')"
    and "int k < numSamples"
    and "sourceSamplePosition v + real (Suc k) * pitchRatio v > real_of_int (lengthS sound)"
  shows "\<exists>j\<le>k. \<exists>v1.
           (\<forall>m<j. sourceSamplePosition v + real (Suc m) * pitchRatio v \<le> real_of_int (lengthS sound))
         \<and> sourceSamplePosition v + real (Suc j) * pitchRatio v > real_of_int (lengthS sound)
         \<and> renderFrames ops (d ! 0) (if length d > 1 then Some (d ! 1) else None)
              (length output > 1) True v output startSample (Suc j) = Inr (v1, output')
         \<and> sourceSamplePosition v1 = sourceSamplePosition v + real (Suc j) * pitchRatio v
         \<and> stopNote ops 0 False v1 = Inr v'
         \<and> (\<forall>c f. int f < startSample \<or> startSample + int j < int f
                \<longrightarrow> output' ! c ! f = output ! c ! f)"
proof -
  from playback_branch_loop [OF assms(1-4)]
  have lp: "renderLoop ops sound (d ! 0) (if length d > 1 then Some (d ! 1) else None)
           (length output > 1) True v output startSample (nat numSamples) = Inr (v', output')"
    by blast
  have k: "k < nat numSamples" using assms(5) by simp
  from renderLoop_overrun [OF lp k assms(6)] obtain j v1 where
    j: "j \<le> k"
    and no: "\<forall>m<j. sourceSamplePosition v + real (Suc m) * pitchRatio v \<le> real_of_int (lengthS sound)"
    and ov: "sourceSamplePosition v + real (Suc j) * pitchRatio v > real_of_int (lengthS sound)"
    and fr: "renderFrames ops (d ! 0) (if length d > 1 then Some (d ! 1) else None)
              (length output > 1) True v output startSample (Suc j) = Inr (v1, output')"
    and ps: "sourceSamplePosition v1 = sourceSamplePosition v + real (Suc j) * pitchRatio v"
    and st: "stopNote ops 0 False v1 = Inr v'"
    by blast
  from renderFrames_frame [OF fr]
  have "\<forall>c f. int f < startSample \<or> startSample + int j < int f
                \<longrightarrow> output' ! c ! f = output ! c ! f"
    by auto
  with j no ov fr ps st show ?thesis by blast
qed

theorem renderNextBlock_overrun_stops_witness:
  "\<exists>v' output'.
     renderNextBlock gateEnvelope octaveVoice [[9, 9, 9, 9, 9, 9]] 0 6 = Inr (v', output')
     \<and> isFading v' \<and> output' = [[10, 12, 14, 16, 9, 9]] \<and> output' ! 0 ! 5 = [[9, 9, 9, 9, 9, 9]] ! 0 ! 5"
proof -
  let ?v' = "octaveVoice\<lparr> currentlyPlayingNote := - 1, currentlyPlayingSound := None,
                sourceSamplePosition := 12, adsr := 0, startingGain := 1, isFading := True \<rparr>"
  let ?out' = "[[10, 12, 14, 16, 9, 9 :: real]]"
  have h1: "\<not> isFading octaveVoice"
    and h2: "currentlyPlayingSound octaveVoice = Some rampSound"
    and h3: "data rampSound = Some [[1, 2, 3, 4, 5, 6, 7, 8, 0, 0, 0, 0]]"
    by (simp_all add: octaveVoice_def playingVoice_def idleVoice_def rampSound_def)
  have h4: "renderNextBlock gateEnvelope octaveVoice [[9, 9, 9, 9, 9, 9]] 0 6 = Inr (?v', ?out')"
    by code_simp
  have h5: "int 4 < 6" by simp
  have h6: "sourceSamplePosition octaveVoice + real (Suc 4) * pitchRatio octaveVoice
              > real_of_int (lengthS rampSound)"
    by (simp add: octaveVoice_def playingVoice_def idleVoice_def rampSound_def)
  from renderNextBlock_overrun_stops [OF h1 h2 h3 h4 h5 h6]
  obtain j where "j \<le> 4"
    and "\<forall>c f. int f < 0 \<or> 0 + int j < int f \<longrightarrow> ?out' ! c ! f = [[9, 9, 9, 9, 9, 9]] ! c ! f"
    by blast
  then have "?out' ! 0 ! 5 = [[9, 9, 9, 9, 9, 9 :: real]] ! 0 ! 5"
    by simp
  moreover have "isFading ?v'" by simp
  ultimately show ?thesis using h4 by blast
qed

text \<open>
  C8. The claim is that, whenever \<open>isFading\<close> is set on entry, the render after the
  fade emission writes nothing unless \<^verbatim>\<open>startNote\<close> is called in between. It fails
  when a note was started between the hard stop and the fade emission:
  \<^verbatim>\<open>startNote\<close> leaves \<open>isFading\<close> set, the next render emits the fade, and the
  render after it, with no \<^verbatim>\<open>startNote\<close> in between, plays the new note. Here the
  voice is stopped hard, the host starts the root note on it again, the fade emission
  writes \<open>1, 3/2, 3/2, 1\<close> over the first four frames of the output, and the next render
  adds the frames \<open>1, 2\<close> of the sound to an output that holds 7.
\<close>

theorem fade_emission_then_started_note_plays:
  "stopNote gateEnvelope 0 False playingVoice = Inr fadingVoice
   \<and> hostStartVoice gateEnvelope 60 1 rampSound fadingVoice = restartedVoice
   \<and> isFading restartedVoice
   \<and> renderNextBlock gateEnvelope restartedVoice [[9, 9, 9, 9, 9, 9]] 0 4
       = Inr (restartedVoice\<lparr> isFading := False \<rparr>, [[1, 3 / 2, 3 / 2, 1, 9, 9]])
   \<and> renderNextBlock gateEnvelope (restartedVoice\<lparr> isFading := False \<rparr>) [[7, 7]] 0 2
       = Inr (restartedVoice\<lparr> isFading := False, sourceSamplePosition := 2 \<rparr>, [[8, 9]])"
proof -
  have a: "isFading restartedVoice"
    by (simp add: restartedVoice_def fadingVoice_def)
  have b: "renderNextBlock gateEnvelope restartedVoice [[9, 9, 9, 9, 9, 9]] 0 4
       = Inr (restartedVoice\<lparr> isFading := False \<rparr>, [[1, 3 / 2, 3 / 2, 1, 9, 9]])"
    by code_simp
  have c: "renderNextBlock gateEnvelope (restartedVoice\<lparr> isFading := False \<rparr>) [[7, 7]] 0 2
       = Inr (restartedVoice\<lparr> isFading := False, sourceSamplePosition := 2 \<rparr>, [[8, 9]])"
    by code_simp
  from fadingVoice_stopped restartedVoice_started a b c show ?thesis by (intro conjI)
qed

text \<open>
  C8, amended. If \<open>isFading\<close> is set on entry (and \<open>numSamples\<close> frames fit the channels
  involved), \<^verbatim>\<open>renderNextBlock\<close> returns with \<open>isFading\<close> cleared and nothing else
  of the voice changed; every output channel that the fade buffer also has holds the
  first \<open>numSamples\<close> frames of that fade channel in its frames \<open>[0, numSamples)\<close>,
  overwritten and not added, and every other sample of the output is as before. If
  the voice has no playing sound at that point, every later render of the voice
  returns its output unchanged; and the voice has none when it is in the state a hard
  stop has left, that is, when no note was started on it since the hard stop.
\<close>

theorem renderNextBlock_fade_emission:
  assumes "isFading v" and "0 \<le> numSamples"
    and "\<forall>c<length output. c < length (fadeBuffer v) \<longrightarrow>
           numSamples \<le> int (length (output ! c)) \<and> numSamples \<le> int (length (fadeBuffer v ! c))"
  shows "\<exists>output'.
           renderNextBlock ops v output startSample numSamples = Inr (v\<lparr> isFading := False \<rparr>, output')
         \<and> map length output' = map length output
         \<and> (\<forall>c<length output. \<forall>k<length (output ! c).
               output' ! c ! k = (if c < length (fadeBuffer v) \<and> int k < numSamples
                                  then fadeBuffer v ! c ! k else output ! c ! k))
         \<and> (currentlyPlayingSound v = None
              \<longrightarrow> (\<forall>out2 start2 num2.
                     renderNextBlock ops (v\<lparr> isFading := False \<rparr>) out2 start2 num2
                       = Inr (v\<lparr> isFading := False \<rparr>, out2)))
         \<and> ((\<exists>v0 velocity. \<not> renderingFade v0 \<and> stopNote ops velocity False v0 = Inr v)
              \<longrightarrow> currentlyPlayingSound v = None)"
proof -
  have "\<forall>c\<in>set [0..<length output]. c < length output \<and> (c < length (fadeBuffer v) \<longrightarrow>
            numSamples \<le> int (length (output ! c)) \<and> numSamples \<le> int (length (fadeBuffer v ! c)))"
    using assms(3) by simp
  from emitFade_ok [OF assms(2) this] obtain output' where
    e: "emitFade (fadeBuffer v) numSamples [0..<length output] output = Inr output'"
    by blast
  have r: "renderNextBlock ops v output startSample numSamples = Inr (v\<lparr> isFading := False \<rparr>, output')"
    using assms(1) e by (simp add: renderNextBlock.simps)
  from emitFade_Inr [OF e]
  have sh: "map length output' = map length output"
    and val: "\<forall>c<length output. \<forall>k<length (output ! c).
               output' ! c ! k = (if c < length (fadeBuffer v) \<and> int k < numSamples
                                  then fadeBuffer v ! c ! k else output ! c ! k)"
    by simp_all
  have idle: "currentlyPlayingSound v = None
              \<longrightarrow> (\<forall>out2 start2 num2.
                     renderNextBlock ops (v\<lparr> isFading := False \<rparr>) out2 start2 num2
                       = Inr (v\<lparr> isFading := False \<rparr>, out2))"
    by (simp add: renderNextBlock_no_sound)
  have detached: "(\<exists>v0 velocity. \<not> renderingFade v0 \<and> stopNote ops velocity False v0 = Inr v)
              \<longrightarrow> currentlyPlayingSound v = None"
  proof
    assume "\<exists>v0 velocity. \<not> renderingFade v0 \<and> stopNote ops velocity False v0 = Inr v"
    then obtain v0 velocity where "\<not> renderingFade v0" "stopNote ops velocity False v0 = Inr v"
      by blast
    from stopNote_hard_form [OF this] show "currentlyPlayingSound v = None" by blast
  qed
  show ?thesis
    using r sh val idle detached by (intro exI [of _ output'] conjI) assumption+
qed

theorem renderNextBlock_fade_emission_witness:
  "\<exists>output'.
     renderNextBlock gateEnvelope fadingVoice [[9, 9, 9, 9, 9, 9]] 0 4
       = Inr (fadingVoice\<lparr> isFading := False \<rparr>, output')
     \<and> output' ! 0 ! 1 = 3 / 2 \<and> output' ! 0 ! 4 = 9
     \<and> currentlyPlayingSound fadingVoice = None
     \<and> renderNextBlock gateEnvelope (fadingVoice\<lparr> isFading := False \<rparr>) [[7, 7]] 0 2
         = Inr (fadingVoice\<lparr> isFading := False \<rparr>, [[7, 7]])"
proof -
  have h1: "isFading fadingVoice" by (simp add: fadingVoice_def)
  have h2: "(0::int) \<le> 4" by simp
  have fb: "fadeBuffer fadingVoice = [[1, 3 / 2, 3 / 2, 1], [1, 3 / 2, 3 / 2, 1]]"
    by (simp add: fadingVoice_def)
  have h3: "\<forall>c<length [[9, 9, 9, 9, 9, 9 :: real]]. c < length (fadeBuffer fadingVoice) \<longrightarrow>
           4 \<le> int (length ([[9, 9, 9, 9, 9, 9 :: real]] ! c))
           \<and> 4 \<le> int (length (fadeBuffer fadingVoice ! c))"
    by (simp add: fb)
  have st: "\<exists>v0 velocity. \<not> renderingFade v0
              \<and> stopNote gateEnvelope velocity False v0 = Inr fadingVoice"
    using fadingVoice_stopped by (intro exI [of _ playingVoice] exI [of _ 0])
      (simp add: playingVoice_def idleVoice_def)
  from renderNextBlock_fade_emission [OF h1 h2 h3, of gateEnvelope 0]
  obtain output' where
    r: "renderNextBlock gateEnvelope fadingVoice [[9, 9, 9, 9, 9, 9]] 0 4
          = Inr (fadingVoice\<lparr> isFading := False \<rparr>, output')"
    and val: "\<forall>c<length [[9, 9, 9, 9, 9, 9 :: real]]. \<forall>k<length ([[9, 9, 9, 9, 9, 9 :: real]] ! c).
               output' ! c ! k = (if c < length (fadeBuffer fadingVoice) \<and> int k < 4
                                  then fadeBuffer fadingVoice ! c ! k
                                  else [[9, 9, 9, 9, 9, 9]] ! c ! k)"
    and idle0: "currentlyPlayingSound fadingVoice = None \<longrightarrow>
                (\<forall>out2 start2 num2.
                   renderNextBlock gateEnvelope (fadingVoice\<lparr> isFading := False \<rparr>) out2 start2 num2
                     = Inr (fadingVoice\<lparr> isFading := False \<rparr>, out2))"
    and det: "(\<exists>v0 velocity. \<not> renderingFade v0
                 \<and> stopNote gateEnvelope velocity False v0 = Inr fadingVoice)
              \<longrightarrow> currentlyPlayingSound fadingVoice = None"
    by (elim exE conjE)
  from det st have none: "currentlyPlayingSound fadingVoice = None"
    by (rule mp)
  from idle0 none have idle: "\<forall>out2 start2 num2.
                 renderNextBlock gateEnvelope (fadingVoice\<lparr> isFading := False \<rparr>) out2 start2 num2
                   = Inr (fadingVoice\<lparr> isFading := False \<rparr>, out2)"
    by (rule mp)
  from val have "output' ! 0 ! 1 = 3 / 2" "output' ! 0 ! 4 = 9"
    by (simp_all add: fb)
  with r none idle show ?thesis
    by (intro exI [of _ output'] conjI) (assumption | rule spec [OF spec [OF spec [OF idle]]])+
qed

text \<open>
  C9. After \<^verbatim>\<open>startNote\<close> with a \<^verbatim>\<open>SamplerSound\<close> (and a host sample rate that is
  not zero) the pitch ratio is \<open>2 powr ((note - rootNote) / 12) * sourceSampleRate /
  hostSampleRate\<close>, the read position is 0, both gains are the velocity, and the envelope
  has been given the sample rate of the sound, then the parameters of the sound, then
  its note-on. At the root note and equal rates the ratio is 1, one octave up it is 2.
\<close>

theorem startNote_sampler_sound:
  assumes "currentSampleRate v \<noteq> 0"
    and "v' = startNote ops midiNoteNumber velocity (IsSamplerSound sound) wheel v"
  shows "pitchRatio v' = 2 powr (real_of_int (midiNoteNumber - midiRootNote sound) / 12)
                           * sourceSampleRate sound / currentSampleRate v
       \<and> sourceSamplePosition v' = 0
       \<and> lgain v' = velocity
       \<and> rgain v' = velocity
       \<and> adsr v' = noteOn ops (setParameters ops (params sound)
                       (setSampleRate ops (sourceSampleRate sound) (adsr v)))
       \<and> (midiNoteNumber = midiRootNote sound \<and> sourceSampleRate sound = currentSampleRate v
             \<longrightarrow> pitchRatio v' = 1)
       \<and> (midiNoteNumber = midiRootNote sound + 12 \<and> sourceSampleRate sound = currentSampleRate v
             \<longrightarrow> pitchRatio v' = 2)"
  using assms by (simp add: startNote_def)

theorem startNote_sampler_sound_witness:
  "currentSampleRate idleVoice \<noteq> 0
   \<and> pitchRatio (startNote gateEnvelope 72 (1 / 2) (IsSamplerSound rampSound) 0 idleVoice) = 2
   \<and> lgain (startNote gateEnvelope 72 (1 / 2) (IsSamplerSound rampSound) 0 idleVoice) = 1 / 2
   \<and> adsr (startNote gateEnvelope 72 (1 / 2) (IsSamplerSound rampSound) 0 idleVoice) = 1"
proof -
  have r: "currentSampleRate idleVoice \<noteq> 0"
    by (simp add: idleVoice_def)
  have m: "(72::int) = midiRootNote rampSound + 12
           \<and> sourceSampleRate rampSound = currentSampleRate idleVoice"
    by (simp add: rampSound_def idleVoice_def)
  have g: "noteOn gateEnvelope a = 1" for a
    by (simp add: gateEnvelope_def)
  show ?thesis
    using startNote_sampler_sound [where v = idleVoice and ops = gateEnvelope
      and midiNoteNumber = 72 and velocity = "1 / 2" and sound = rampSound and wheel = 0,
      OF r refl] r m g
    by simp
qed

text \<open>
  C10. When \<^verbatim>\<open>startNote\<close> is given a sound that is not a \<^verbatim>\<open>SamplerSound\<close>, the
  voice is left exactly as it was: the pitch ratio, the read position, both gains, the
  envelope, \<open>isFading\<close>, the fade buffer and every other field keep their values.
\<close>

theorem startNote_other_sound_unchanged:
  "startNote ops midiNoteNumber velocity OtherSound currentPitchWheelPosition v = v"
  by (simp add: startNote_def)

section \<open>Further properties\<close>

text \<open>
  X1. Outside the fade branch \<^verbatim>\<open>renderNextBlock\<close> keeps to its window: when
  \<open>isFading\<close> is clear on entry, the output keeps its shape and every sample at an
  index below \<open>startSample\<close> or from \<open>startSample + numSamples\<close> on holds what it held
  on entry.
\<close>

theorem renderNextBlock_window:
  assumes "\<not> isFading v" and "renderNextBlock ops v output startSample numSamples = Inr (v', output')"
  shows "map length output' = map length output
       \<and> (\<forall>c k. int k < startSample \<or> startSample + max 0 numSamples \<le> int k
             \<longrightarrow> output' ! c ! k = output ! c ! k)"
proof (cases "currentlyPlayingSound v")
  case None
  with assms show ?thesis by (simp add: renderNextBlock.simps)
next
  case (Some ps)
  with assms obtain d where d: "data ps = Some d"
    by (auto simp: renderNextBlock.simps split: option.splits)
  from playback_branch_loop [OF assms(1) Some d assms(2)]
  have "renderLoop ops ps (d ! 0) (if length d > 1 then Some (d ! 1) else None)
           (length output > 1) True v output startSample (nat numSamples) = Inr (v', output')"
    by blast
  from renderLoop_frame [OF this] show ?thesis
    by (auto simp: max_def)
qed


theorem renderNextBlock_window_witness:
  "\<exists>v' output'.
     renderNextBlock gateEnvelope playingVoice [[9, 9, 9, 9, 9, 9]] 2 2 = Inr (v', output')
     \<and> output' = [[9, 9, 10, 11, 9, 9]]
     \<and> output' ! 0 ! 1 = [[9, 9, 9, 9, 9, 9]] ! 0 ! 1
     \<and> output' ! 0 ! 4 = [[9, 9, 9, 9, 9, 9]] ! 0 ! 4"
proof -
  let ?v' = "playingVoice\<lparr> sourceSamplePosition := 2, startingGain := 1 \<rparr>"
  let ?out' = "[[9, 9, 10, 11, 9, 9 :: real]]"
  have h1: "\<not> isFading playingVoice"
    by (simp add: playingVoice_def idleVoice_def)
  have h2: "renderNextBlock gateEnvelope playingVoice [[9, 9, 9, 9, 9, 9]] 2 2 = Inr (?v', ?out')"
    by code_simp
  from renderNextBlock_window [OF h1 h2]
  have "?out' ! 0 ! 1 = [[9, 9, 9, 9, 9, 9 :: real]] ! 0 ! 1"
    and "?out' ! 0 ! 4 = [[9, 9, 9, 9, 9, 9 :: real]] ! 0 ! 4"
    by simp_all
  with h2 show ?thesis by blast
qed

end
